theory Spec2Isabelle
  imports Main "HOL-Library.Word"
begin

unbundle bit_operations_syntax

section \<open>Data model\<close>

text \<open>
  The IPv6 neighbour-resolution code of grout: the control callbacks of
  \<^verbatim>\<open>modules/ip6/control/nexthop.c\<close> and the two datapath nodes
  \<^verbatim>\<open>ndp_ns_input\<close> and \<^verbatim>\<open>ndp_ns_output\<close>.
  Pointers are indices into explicit stores: a nexthop pointer is a slot of
  the nexthop pool, an mbuf pointer is a slot of the packet store.
  A \<^verbatim>\<open>NULL\<close> pointer is \<open>None\<close>.
\<close>

type_synonym ip6_addr = "128 word"
type_synonym eth_addr = "48 word"
type_synonym nh_ptr = nat
type_synonym mbuf_ptr = nat
type_synonym gr_nh_flags = "16 word"

datatype errno = EINVAL | EOVERFLOW | ENODEV | EEXIST | ENOENT | EBUSY | ENOMEM | EAGAIN

text \<open>The status of an API reply: \<^verbatim>\<open>api_out(0, 0)\<close> is \<open>OK\<close>.\<close>

datatype api_out = OK | ERR errno

text \<open>
  Fatal ends of a callback: \<^verbatim>\<open>ABORT(...)\<close>, and the dereference of a
  \<^verbatim>\<open>NULL\<close> tail pointer.
\<close>

datatype fault = ABORT | NULL_DEREF

subsection \<open>Addresses (DPDK \<^verbatim>\<open>rte_ip6.h\<close>)\<close>

text \<open>
  The address helpers are DPDK's. An address is its 16 bytes read as one
  big-endian number: the first byte is the top byte.
\<close>

definition rte_ipv6_addr_is_unspec :: "ip6_addr \<Rightarrow> bool" where
  "rte_ipv6_addr_is_unspec a = (a = 0)"

definition rte_ipv6_addr_is_mcast :: "ip6_addr \<Rightarrow> bool" where
  "rte_ipv6_addr_is_mcast a = (drop_bit 120 a = 0xff)"

definition rte_ipv6_addr_eq :: "ip6_addr \<Rightarrow> ip6_addr \<Rightarrow> bool" where
  "rte_ipv6_addr_eq a b = (a = b)"

definition RTE_IPV6_ADDR_ALLNODES_LINK_LOCAL :: ip6_addr where
  "RTE_IPV6_ADDR_ALLNODES_LINK_LOCAL = 0xff020000000000000000000000000001"

text \<open>\<^verbatim>\<open>ff02::1:ffXX:XXXX\<close>, with the low 24 bits of the address.\<close>

definition rte_ipv6_solnode_from_addr :: "ip6_addr \<Rightarrow> ip6_addr" where
  "rte_ipv6_solnode_from_addr a =
     (0xff0200000000000000000001ff000000 OR (a AND 0xffffff))"

text \<open>Membership of the solicited-node multicast prefix \<^verbatim>\<open>ff02::1:ff00:0/104\<close> (RFC 4291).\<close>

definition ip6_addr_is_solnode :: "ip6_addr \<Rightarrow> bool" where
  "ip6_addr_is_solnode a = (drop_bit 24 a = 0xff0200000000000000000001ff)"

definition RTE_IPV6_MAX_DEPTH :: nat where
  "RTE_IPV6_MAX_DEPTH = 128"

definition GR_IFACE_ID_UNDEF :: "16 word" where
  "GR_IFACE_ID_UNDEF = 0"

subsection \<open>Nexthops\<close>

text \<open>
  Modelled from the spec: the \<^verbatim>\<open>GR_NH_F_*\<close> constants are declared in a
  header outside the sources at hand. The spec has \<open>flags\<close> as a bit set over
  eight names; each name is one bit of its own here.
\<close>

definition GR_NH_F_PENDING :: gr_nh_flags where "GR_NH_F_PENDING = 0x01"
definition GR_NH_F_REACHABLE :: gr_nh_flags where "GR_NH_F_REACHABLE = 0x02"
definition GR_NH_F_STALE :: gr_nh_flags where "GR_NH_F_STALE = 0x04"
definition GR_NH_F_FAILED :: gr_nh_flags where "GR_NH_F_FAILED = 0x08"
definition GR_NH_F_STATIC :: gr_nh_flags where "GR_NH_F_STATIC = 0x10"
definition GR_NH_F_LOCAL :: gr_nh_flags where "GR_NH_F_LOCAL = 0x20"
definition GR_NH_F_GATEWAY :: gr_nh_flags where "GR_NH_F_GATEWAY = 0x40"
definition GR_NH_F_LINK :: gr_nh_flags where "GR_NH_F_LINK = 0x80"

text \<open>The C test \<^verbatim>\<open>nh->flags & F\<close>.\<close>

definition nh_flag :: "gr_nh_flags \<Rightarrow> gr_nh_flags \<Rightarrow> bool" where
  "nh_flag fl f = (fl AND f \<noteq> 0)"

text \<open>
  Modelled from the spec: \<^verbatim>\<open>struct nexthop\<close> is declared outside the
  sources at hand. The fields are those the code reads and writes; the spec
  gives \<open>vrf_id\<close> and \<open>iface_id\<close> 16 bits, the address 128 bits and the
  link-layer address 48 bits, and no width for the counters and timestamps,
  which are natural numbers here.
\<close>

record nexthop =
  flags :: gr_nh_flags
  lladdr :: eth_addr
  vrf_id :: "16 word"
  iface_id :: "16 word"
  ipv6 :: ip6_addr
  last_request :: nat
  last_reply :: nat
  ucast_probes :: nat
  bcast_probes :: nat
  ref_count :: nat
  held_pkts_num :: nat
  held_pkts_head :: "mbuf_ptr option"
  held_pkts_tail :: "mbuf_ptr option"

record iface =
  if_id :: "16 word"
  if_vrf_id :: "16 word"

subsection \<open>Packets\<close>

text \<open>
  An mbuf, as the code at hand reads and writes it: the IPv6 addresses, hop
  limit and payload length (the IPv6 header, or \<^verbatim>\<open>ip6_local_mbuf_data\<close>
  once the header is stripped), the ICMPv6 header, the neighbour solicit or advert body with
  its options, and the metadata slots: \<^verbatim>\<open>mbuf_data(m)->iface\<close>,
  \<^verbatim>\<open>queue_mbuf_data(m)->next\<close>, \<^verbatim>\<open>ip6_output_mbuf_data(m)->nh\<close> and
  \<^verbatim>\<open>->iface\<close>, \<^verbatim>\<open>control_input_mbuf_data(m)->data\<close>,
  \<^verbatim>\<open>control_output_mbuf_data(m)->callback\<close>. Checksums and packet
  traces are left out: no function here branches on them.
\<close>

datatype callback = CB_ndp_probe_input

record mbuf =
  ip6_src :: ip6_addr
  ip6_dst :: ip6_addr
  hop_limit :: "8 word"
  l4_len :: nat
  icmp6_type :: "8 word"
  icmp6_code :: "8 word"
  nd_target :: ip6_addr
  nd_router :: bool
  nd_solicited :: bool
  nd_override :: bool
  nd_opts :: "(8 word \<times> eth_addr) list"
  md_iface :: iface
  q_next :: "mbuf_ptr option"
  out_nh :: "nh_ptr option"
  out_iface :: "iface option"
  ctl_data :: "nh_ptr option"
  ctl_callback :: "callback option"

definition ICMP6_TYPE_NEIGH_SOLICIT :: "8 word" where "ICMP6_TYPE_NEIGH_SOLICIT = 135"
definition ICMP6_TYPE_NEIGH_ADVERT :: "8 word" where "ICMP6_TYPE_NEIGH_ADVERT = 136"
definition ICMP6_OPT_SRC_LLADDR :: "8 word" where "ICMP6_OPT_SRC_LLADDR = 1"
definition ICMP6_OPT_TARGET_LLADDR :: "8 word" where "ICMP6_OPT_TARGET_LLADDR = 2"

text \<open>
  \<^verbatim>\<open>icmp6_get_opt(m, offset, type, &mac)\<close>: the first option of the
  given type after the message body, if there is one.
\<close>

definition icmp6_get_opt :: "mbuf \<Rightarrow> 8 word \<Rightarrow> eth_addr option" where
  "icmp6_get_opt pkt ty = map_of (nd_opts pkt) ty"

subsection \<open>Configuration and state\<close>

text \<open>
  The compile-time constants are declared outside the sources at hand and are
  parameters: \<^verbatim>\<open>NH_MAX_HELD_PKTS\<close>, \<^verbatim>\<open>NH_UCAST_PROBES\<close>,
  \<^verbatim>\<open>MAX_VRFS\<close>, \<^verbatim>\<open>IP6_MAX_NEXT_HOPS\<close> (the capacity of the pool) and
  the size of the ring of the control-to-datapath bridge.
\<close>

record config =
  NH_MAX_HELD_PKTS :: nat
  NH_UCAST_PROBES :: nat
  MAX_VRFS :: nat
  IP6_MAX_NEXT_HOPS :: nat
  RING_SIZE :: nat

datatype control_input = ip6_output_node | ndp_solicit

record route =
  r_vrf :: "16 word"
  r_ip :: ip6_addr
  r_len :: nat
  r_nh :: nh_ptr

text \<open>
  The state the control loop owns: the objects of the nexthop pool and its
  free list, the route table, the interface table, the preferred local
  address of each interface (the answer of \<^verbatim>\<open>ip6_addr_get_preferred\<close>),
  the packet store with the free packet buffers, the ring of messages posted
  to the datapath, and the packets freed so far.
\<close>

record state =
  nhs :: "nh_ptr \<Rightarrow> nexthop"
  free_list :: "nh_ptr list"
  routes :: "route list"
  ifaces :: "16 word \<Rightarrow> iface option"
  addr_preferred :: "16 word \<Rightarrow> ip6_addr \<Rightarrow> nh_ptr option"
  mbufs :: "mbuf_ptr \<Rightarrow> mbuf"
  mbuf_pool :: "mbuf_ptr list"
  ring :: "(control_input \<times> nat) list"
  freed :: "mbuf_ptr list"

definition rte_pktmbuf_free :: "mbuf_ptr \<Rightarrow> state \<Rightarrow> state" where
  "rte_pktmbuf_free m st = st\<lparr>freed := freed st @ [m]\<rparr>"

definition iface_from_id :: "16 word \<Rightarrow> state \<Rightarrow> errno + iface" where
  "iface_from_id i st = (case ifaces st i of None \<Rightarrow> Inl ENODEV | Some ifp \<Rightarrow> Inr ifp)"

section \<open>Collaborators outside the sources at hand\<close>

subsection \<open>The nexthop pool\<close>

text \<open>
  Modelled from the spec: \<^verbatim>\<open>nexthop_new\<close> and \<^verbatim>\<open>nexthop_lookup\<close> of the
  nexthop pool are missing (spec 4.A). \<open>new\<close> fails with \<open>INVALID_ARG\<close> for
  a multicast or unspecified address and with \<open>NO_CAPACITY\<close> when the free
  list is empty; the entry it returns is in the spec's state NEW: the key
  fields set, no flag, no reference, an empty hold queue.
\<close>

definition nexthop_init :: "16 word \<Rightarrow> 16 word \<Rightarrow> ip6_addr \<Rightarrow> nexthop" where
  "nexthop_init vrf ifid ip =
     \<lparr>flags = 0, lladdr = 0, vrf_id = vrf, iface_id = ifid, ipv6 = ip,
      last_request = 0, last_reply = 0, ucast_probes = 0, bcast_probes = 0,
      ref_count = 0, held_pkts_num = 0, held_pkts_head = None, held_pkts_tail = None\<rparr>"

definition ip6_nexthop_new ::
  "16 word \<Rightarrow> 16 word \<Rightarrow> ip6_addr \<Rightarrow> state \<Rightarrow> errno + (nh_ptr \<times> state)" where
  "ip6_nexthop_new vrf ifid ip st =
     (if rte_ipv6_addr_is_unspec ip \<or> rte_ipv6_addr_is_mcast ip then Inl EINVAL
      else case free_list st of
             [] \<Rightarrow> Inl ENOMEM
           | p # rest \<Rightarrow>
               Inr (p, st\<lparr>free_list := rest,
                         nhs := (nhs st)(p := nexthop_init vrf ifid ip)\<rparr>))"

text \<open>
  Modelled from the spec: the index is keyed by \<open>(vrf_id, iface_id, addr)\<close>;
  a lookup with \<open>iface_id = UNDEF\<close> matches on \<open>(vrf, addr)\<close> and any
  interface, and returns the match of lowest index; a nexthop is in the index
  iff its \<open>ref_count > 0\<close> (invariant 1 of the spec's data model).
\<close>

definition nh_matches :: "16 word \<Rightarrow> 16 word \<Rightarrow> ip6_addr \<Rightarrow> nexthop \<Rightarrow> bool" where
  "nh_matches vrf ifid ip nh =
     (0 < ref_count nh \<and> vrf_id nh = vrf \<and> ipv6 nh = ip
      \<and> (ifid = GR_IFACE_ID_UNDEF \<or> iface_id nh = ifid))"

definition ip6_nexthop_lookup ::
  "config \<Rightarrow> 16 word \<Rightarrow> 16 word \<Rightarrow> ip6_addr \<Rightarrow> state \<Rightarrow> nh_ptr option" where
  "ip6_nexthop_lookup cfg vrf ifid ip st =
     find (\<lambda>p. nh_matches vrf ifid ip (nhs st p)) [0 ..< IP6_MAX_NEXT_HOPS cfg]"

text \<open>
  Modelled from the spec: \<open>incref\<close> and \<open>decref\<close> adjust \<open>ref_count\<close>;
  when it reaches 0 the entry returns to the free list.
\<close>

definition nexthop_incref :: "nh_ptr \<Rightarrow> state \<Rightarrow> state" where
  "nexthop_incref p st =
     st\<lparr>nhs := (nhs st)(p := (nhs st p)\<lparr>ref_count := ref_count (nhs st p) + 1\<rparr>)\<rparr>"

definition nexthop_decref :: "nh_ptr \<Rightarrow> state \<Rightarrow> state" where
  "nexthop_decref p st =
     (if ref_count (nhs st p) \<le> 1
      then st\<lparr>nhs := (nhs st)(p := (nhs st p)\<lparr>ref_count := 0\<rparr>),
              free_list := p # free_list st\<rparr>
      else st\<lparr>nhs := (nhs st)(p := (nhs st p)\<lparr>ref_count := ref_count (nhs st p) - 1\<rparr>)\<rparr>)"

subsection \<open>The route table\<close>

text \<open>
  Modelled from the spec: the route table is missing; the spec gives its
  contracts only (section 6): \<open>route_lookup(vrf, iface, addr) -> nh | null\<close>,
  \<open>route_insert(vrf, iface, addr, prefix_len, nh) -> 0/err\<close>,
  \<open>route_delete(vrf, iface, addr, prefix_len) -> 0/err\<close>. The table is a list
  of routes; lookup is the longest prefix match; insert refuses a prefix the
  table has (error \<open>Exists\<close>) and takes a reference on the nexthop; delete
  fails with \<open>NotFound\<close> when the prefix is not in the table and drops the
  route's reference on its nexthop.
\<close>

definition prefix_match :: "nat \<Rightarrow> ip6_addr \<Rightarrow> ip6_addr \<Rightarrow> bool" where
  "prefix_match len a b = (drop_bit (128 - len) a = drop_bit (128 - len) b)"

definition route_exact :: "16 word \<Rightarrow> ip6_addr \<Rightarrow> nat \<Rightarrow> route \<Rightarrow> bool" where
  "route_exact vrf ip len r = (r_vrf r = vrf \<and> r_len r = len \<and> prefix_match len (r_ip r) ip)"

definition route_longer :: "route \<Rightarrow> route \<Rightarrow> route" where
  "route_longer best r = (if r_len best < r_len r then r else best)"

definition ip6_route_lookup :: "16 word \<Rightarrow> 16 word \<Rightarrow> ip6_addr \<Rightarrow> state \<Rightarrow> nh_ptr option" where
  "ip6_route_lookup vrf ifid ip st =
     (case filter (\<lambda>r. r_vrf r = vrf \<and> prefix_match (r_len r) (r_ip r) ip) (routes st) of
        [] \<Rightarrow> None
      | r # rs \<Rightarrow> Some (r_nh (foldl route_longer r rs)))"

definition ip6_route_insert ::
  "16 word \<Rightarrow> 16 word \<Rightarrow> ip6_addr \<Rightarrow> nat \<Rightarrow> nh_ptr \<Rightarrow> state \<Rightarrow> errno + state" where
  "ip6_route_insert vrf ifid ip len nh st =
     (case find (route_exact vrf ip len) (routes st) of
        Some r \<Rightarrow> Inl EEXIST
      | None \<Rightarrow>
          Inr (nexthop_incref nh
                 (st\<lparr>routes := \<lparr>r_vrf = vrf, r_ip = ip, r_len = len, r_nh = nh\<rparr> # routes st\<rparr>)))"

definition ip6_route_delete ::
  "16 word \<Rightarrow> 16 word \<Rightarrow> ip6_addr \<Rightarrow> nat \<Rightarrow> state \<Rightarrow> errno + state" where
  "ip6_route_delete vrf ifid ip len st =
     (case find (route_exact vrf ip len) (routes st) of
        None \<Rightarrow> Inl ENOENT
      | Some r \<Rightarrow> Inr (nexthop_decref (r_nh r) (st\<lparr>routes := remove1 r (routes st)\<rparr>)))"

subsection \<open>The bridge from the control loop to the datapath\<close>

text \<open>
  Modelled from the spec: \<^verbatim>\<open>post_to_stack(handler, payload)\<close> is missing
  (spec 4.F): it enqueues a unit on a ring, never blocks, and fails with
  \<open>AGAIN\<close> when the ring is full. Messages stay in issue order.
\<close>

definition post_to_stack :: "config \<Rightarrow> control_input \<Rightarrow> nat \<Rightarrow> state \<Rightarrow> api_out \<times> state" where
  "post_to_stack cfg h payload st =
     (if length (ring st) < RING_SIZE cfg
      then (OK, st\<lparr>ring := ring st @ [(h, payload)]\<rparr>)
      else (ERR EAGAIN, st))"


section \<open>Control plane: \<^verbatim>\<open>modules/ip6/control/nexthop.c\<close>\<close>

subsection \<open>\<^verbatim>\<open>ip6_nexthop_solicit\<close> (defined in \<^verbatim>\<open>ndp_ns_output.c\<close>)\<close>

definition ip6_nexthop_solicit :: "config \<Rightarrow> nh_ptr option \<Rightarrow> state \<Rightarrow> api_out \<times> state" where
  "ip6_nexthop_solicit cfg nh st =
     (case nh of
        None \<Rightarrow> (ERR EINVAL, st)
      | Some p \<Rightarrow> post_to_stack cfg ndp_solicit p st)"

subsection \<open>\<^verbatim>\<open>ip6_nexthop_unreachable_cb\<close>\<close>

text \<open>
  Lines 56 to 67: the host nexthop of the destination, looked up on the
  packet's interface, created when there is none, bound to the link route's
  interface when it is a gateway entry with no interface yet.
\<close>

definition unreachable_remote ::
  "config \<Rightarrow> mbuf_ptr \<Rightarrow> nh_ptr \<Rightarrow> state \<Rightarrow> nh_ptr option \<times> state" where
  "unreachable_remote cfg m nh st =
     (let dst = ip6_dst (mbufs st m) in
      case ip6_nexthop_lookup cfg (vrf_id (nhs st nh)) (if_id (md_iface (mbufs st m))) dst st of
        None \<Rightarrow>
          (case ip6_nexthop_new (vrf_id (nhs st nh)) (iface_id (nhs st nh)) dst st of
             Inl e \<Rightarrow> (None, st)
           | Inr (r, st1) \<Rightarrow> (Some r, st1))
      | Some r \<Rightarrow>
          if nh_flag (flags (nhs st r)) GR_NH_F_GATEWAY \<and> iface_id (nhs st r) = 0
          then (Some r, st\<lparr>nhs := (nhs st)(r := (nhs st r)\<lparr>iface_id := iface_id (nhs st nh)\<rparr>)\<rparr>)
          else (Some r, st))"

text \<open>
  Lines 52 to 84. The three ways out: the fatal \<^verbatim>\<open>ABORT\<close>, the jump to
  \<^verbatim>\<open>free\<close>, and the nexthop the callback goes on with.
\<close>

datatype pivot = Pivot_Abort | Pivot_Free state | Pivot_Next nh_ptr state

definition unreachable_pivot :: "config \<Rightarrow> mbuf_ptr \<Rightarrow> nh_ptr \<Rightarrow> state \<Rightarrow> pivot" where
  "unreachable_pivot cfg m nh st =
     (let dst = ip6_dst (mbufs st m) in
      if nh_flag (flags (nhs st nh)) GR_NH_F_LINK \<and> \<not> rte_ipv6_addr_eq dst (ipv6 (nhs st nh))
      then
        (case unreachable_remote cfg m nh st of
           (None, st1) \<Rightarrow> Pivot_Free st1
         | (Some remote, st1) \<Rightarrow>
             if iface_id (nhs st1 remote) \<noteq> iface_id (nhs st1 nh) then Pivot_Abort
             else
               (case ip6_route_insert (vrf_id (nhs st1 nh)) (iface_id (nhs st1 nh)) dst
                       RTE_IPV6_MAX_DEPTH remote st1 of
                  Inl e \<Rightarrow> Pivot_Free st1
                | Inr st2 \<Rightarrow> Pivot_Next remote st2))
      else Pivot_Next nh st)"

text \<open>Lines 99 to 105: the packet goes to the tail of the hold queue.\<close>

definition hold_enqueue :: "mbuf_ptr \<Rightarrow> nh_ptr \<Rightarrow> state \<Rightarrow> fault + state" where
  "hold_enqueue m nh st =
     (let st1 = st\<lparr>mbufs := (mbufs st)(m := (mbufs st m)\<lparr>q_next := None\<rparr>)\<rparr> in
      case (case held_pkts_head (nhs st1 nh) of
              None \<Rightarrow> Inr (st1\<lparr>nhs := (nhs st1)(nh := (nhs st1 nh)\<lparr>held_pkts_head := Some m\<rparr>)\<rparr>)
            | Some h \<Rightarrow>
                (case held_pkts_tail (nhs st1 nh) of
                   None \<Rightarrow> Inl NULL_DEREF
                 | Some t \<Rightarrow> Inr (st1\<lparr>mbufs := (mbufs st1)(t := (mbufs st1 t)\<lparr>q_next := Some m\<rparr>)\<rparr>))) of
        Inl f \<Rightarrow> Inl f
      | Inr st2 \<Rightarrow>
          Inr (st2\<lparr>nhs := (nhs st2)(nh := (nhs st2 nh)
                 \<lparr>held_pkts_tail := Some m, held_pkts_num := held_pkts_num (nhs st2 nh) + 1\<rparr>)\<rparr>))"

text \<open>Lines 86 to 115: re-inject, hold, or drop.\<close>

definition unreachable_hold :: "config \<Rightarrow> mbuf_ptr \<Rightarrow> nh_ptr \<Rightarrow> state \<Rightarrow> fault + state" where
  "unreachable_hold cfg m nh st =
     (if nh_flag (flags (nhs st nh)) GR_NH_F_REACHABLE then
        (let st1 = st\<lparr>mbufs := (mbufs st)(m := (mbufs st m)\<lparr>out_nh := Some nh\<rparr>)\<rparr> in
         case post_to_stack cfg ip6_output_node m st1 of
           (ERR e, st2) \<Rightarrow> Inr (rte_pktmbuf_free m st2)
         | (OK, st2) \<Rightarrow> Inr st2)
      else if held_pkts_num (nhs st nh) < NH_MAX_HELD_PKTS cfg then
        (case hold_enqueue m nh st of
           Inl f \<Rightarrow> Inl f
         | Inr st1 \<Rightarrow>
             if \<not> nh_flag (flags (nhs st1 nh)) GR_NH_F_PENDING then
               (let st2 = snd (ip6_nexthop_solicit cfg (Some nh) st1) in
                Inr (st2\<lparr>nhs := (nhs st2)(nh := (nhs st2 nh)
                       \<lparr>flags := flags (nhs st2 nh) OR GR_NH_F_PENDING\<rparr>)\<rparr>))
             else Inr st1)
      else Inr (rte_pktmbuf_free m st))"

definition ip6_nexthop_unreachable_cb :: "config \<Rightarrow> mbuf_ptr \<Rightarrow> state \<Rightarrow> fault + state" where
  "ip6_nexthop_unreachable_cb cfg m st =
     (case ip6_route_lookup (if_vrf_id (md_iface (mbufs st m))) (if_id (md_iface (mbufs st m)))
             (ip6_dst (mbufs st m)) st of
        None \<Rightarrow> Inr (rte_pktmbuf_free m st)
      | Some nh \<Rightarrow>
          (case unreachable_pivot cfg m nh st of
             Pivot_Abort \<Rightarrow> Inl ABORT
           | Pivot_Free st1 \<Rightarrow> Inr (rte_pktmbuf_free m st1)
           | Pivot_Next nh' st1 \<Rightarrow> unreachable_hold cfg m nh' st1))"

subsection \<open>\<^verbatim>\<open>ndp_probe_input_cb\<close>\<close>

text \<open>
  Lines 128 to 149: the link-layer address option of the probe, by its type.
  The target is \<open>nd_target\<close> for both types.
\<close>

definition probe_lladdr :: "mbuf \<Rightarrow> eth_addr option" where
  "probe_lladdr pkt =
     (if icmp6_type pkt = ICMP6_TYPE_NEIGH_SOLICIT then icmp6_get_opt pkt ICMP6_OPT_SRC_LLADDR
      else if icmp6_type pkt = ICMP6_TYPE_NEIGH_ADVERT then icmp6_get_opt pkt ICMP6_OPT_TARGET_LLADDR
      else None)"

text \<open>
  Lines 151 to 168: the nexthop of the sender, created with its internal
  /128 route when there is none. \<open>Inl\<close> is the jump to \<^verbatim>\<open>free\<close>.
\<close>

definition probe_nexthop :: "config \<Rightarrow> iface \<Rightarrow> ip6_addr \<Rightarrow> state \<Rightarrow> state + (nh_ptr \<times> state)" where
  "probe_nexthop cfg ifp target st =
     (case ip6_nexthop_lookup cfg (if_vrf_id ifp) (if_id ifp) target st of
        Some nh \<Rightarrow> Inr (nh, st)
      | None \<Rightarrow>
          (case ip6_nexthop_new (if_vrf_id ifp) (if_id ifp) target st of
             Inl e \<Rightarrow> Inl st
           | Inr (nh, st1) \<Rightarrow>
               (case ip6_route_insert (if_vrf_id ifp) (if_id ifp) target RTE_IPV6_MAX_DEPTH nh st1 of
                  Inl e \<Rightarrow> Inl st1
                | Inr st2 \<Rightarrow> Inr (nh, st2))))"

text \<open>Lines 175 to 181; \<open>now\<close> is the value of \<^verbatim>\<open>rte_get_tsc_cycles()\<close>.\<close>

definition probe_refresh :: "nat \<Rightarrow> iface \<Rightarrow> eth_addr \<Rightarrow> nexthop \<Rightarrow> nexthop" where
  "probe_refresh now ifp mac nh =
     nh\<lparr>last_reply := now,
        iface_id := if_id ifp,
        flags := (flags nh OR GR_NH_F_REACHABLE)
                   AND NOT (GR_NH_F_STALE OR GR_NH_F_PENDING OR GR_NH_F_FAILED),
        ucast_probes := 0,
        bcast_probes := 0,
        lladdr := mac\<rparr>"

text \<open>
  Lines 184 to 195: the walk over the chain of held packets. The loop ends
  when it meets \<^verbatim>\<open>NULL\<close>; on a chain that never does, it does not return
  (\<open>None\<close>). The result of \<^verbatim>\<open>post_to_stack\<close> is not looked at.
\<close>

partial_function (option) flush_held ::
  "config \<Rightarrow> nh_ptr \<Rightarrow> mbuf_ptr option \<Rightarrow> state \<Rightarrow> state option" where
  "flush_held cfg nh held st =
     (case held of
        None \<Rightarrow> Some st
      | Some h \<Rightarrow>
          (let next = q_next (mbufs st h);
               st1 = st\<lparr>mbufs := (mbufs st)(h := (mbufs st h)\<lparr>out_nh := Some nh, out_iface := None\<rparr>)\<rparr>;
               st2 = snd (post_to_stack cfg ip6_output_node h st1)
           in flush_held cfg nh next st2))"

definition ndp_probe_input_cb :: "config \<Rightarrow> nat \<Rightarrow> mbuf_ptr \<Rightarrow> state \<Rightarrow> state option" where
  "ndp_probe_input_cb cfg now m st =
     (let pkt = mbufs st m; ifp = md_iface pkt; target = nd_target pkt in
      case probe_lladdr pkt of
        None \<Rightarrow> Some (rte_pktmbuf_free m st)
      | Some mac \<Rightarrow>
          (case probe_nexthop cfg ifp target st of
             Inl st1 \<Rightarrow> Some (rte_pktmbuf_free m st1)
           | Inr (nh, st1) \<Rightarrow>
               if nh_flag (flags (nhs st1 nh)) GR_NH_F_STATIC then Some (rte_pktmbuf_free m st1)
               else
                 (let st2 = st1\<lparr>nhs := (nhs st1)(nh := probe_refresh now ifp mac (nhs st1 nh))\<rparr> in
                  case flush_held cfg nh (held_pkts_head (nhs st2 nh)) st2 of
                    None \<Rightarrow> None
                  | Some st3 \<Rightarrow>
                      Some (rte_pktmbuf_free m
                        (st3\<lparr>nhs := (nhs st3)(nh := (nhs st3 nh)
                           \<lparr>held_pkts_head := None, held_pkts_tail := None,
                            held_pkts_num := 0\<rparr>)\<rparr>)))))"

subsection \<open>\<^verbatim>\<open>nh6_add\<close> and \<^verbatim>\<open>nh6_del\<close>\<close>

record gr_ip6_nh_add_req =
  add_vrf_id :: "16 word"
  add_iface_id :: "16 word"
  add_ipv6 :: ip6_addr
  add_mac :: eth_addr
  exist_ok :: bool

record gr_ip6_nh_del_req =
  del_vrf_id :: "16 word"
  del_host :: ip6_addr
  missing_ok :: bool

definition rte_is_same_ether_addr :: "eth_addr \<Rightarrow> eth_addr \<Rightarrow> bool" where
  "rte_is_same_ether_addr a b = (a = b)"

definition nh6_add :: "config \<Rightarrow> gr_ip6_nh_add_req \<Rightarrow> state \<Rightarrow> api_out \<times> state" where
  "nh6_add cfg req st =
     (if rte_ipv6_addr_is_unspec (add_ipv6 req) \<or> rte_ipv6_addr_is_mcast (add_ipv6 req)
      then (ERR EINVAL, st)
      else if MAX_VRFS cfg \<le> unat (add_vrf_id req) then (ERR EOVERFLOW, st)
      else case iface_from_id (add_iface_id req) st of
        Inl e \<Rightarrow> (ERR e, st)
      | Inr ifp \<Rightarrow>
          (case ip6_nexthop_lookup cfg (add_vrf_id req) (add_iface_id req) (add_ipv6 req) st of
             Some nh \<Rightarrow>
               if exist_ok req \<and> add_iface_id req = iface_id (nhs st nh)
                  \<and> rte_is_same_ether_addr (add_mac req) (lladdr (nhs st nh))
               then (OK, st)
               else (ERR EEXIST, st)
           | None \<Rightarrow>
               (case ip6_nexthop_new (add_vrf_id req) (add_iface_id req) (add_ipv6 req) st of
                  Inl e \<Rightarrow> (ERR e, st)
                | Inr (nh, st1) \<Rightarrow>
                    (let st2 = st1\<lparr>nhs := (nhs st1)(nh := (nhs st1 nh)
                                 \<lparr>lladdr := add_mac req,
                                  flags := GR_NH_F_STATIC OR GR_NH_F_REACHABLE\<rparr>)\<rparr> in
                     case ip6_route_insert (vrf_id (nhs st2 nh)) (iface_id (nhs st2 nh))
                            (ipv6 (nhs st2 nh)) RTE_IPV6_MAX_DEPTH nh st2 of
                       Inl e \<Rightarrow> (ERR e, st2)
                     | Inr st3 \<Rightarrow> (OK, st3)))))"

definition nh6_del :: "config \<Rightarrow> gr_ip6_nh_del_req \<Rightarrow> state \<Rightarrow> api_out \<times> state" where
  "nh6_del cfg req st =
     (if MAX_VRFS cfg \<le> unat (del_vrf_id req) then (ERR EOVERFLOW, st)
      else case ip6_nexthop_lookup cfg (del_vrf_id req) GR_IFACE_ID_UNDEF (del_host req) st of
        None \<Rightarrow> if missing_ok req then (OK, st) else (ERR ENOENT, st)
      | Some nh \<Rightarrow>
          if nh_flag (flags (nhs st nh)) (GR_NH_F_LOCAL OR GR_NH_F_LINK OR GR_NH_F_GATEWAY)
             \<or> 1 < ref_count (nhs st nh)
          then (ERR EBUSY, st)
          else
            (case ip6_route_delete (del_vrf_id req) GR_IFACE_ID_UNDEF (del_host req)
                    RTE_IPV6_MAX_DEPTH st of
               Inl e \<Rightarrow> (ERR e, st)
             | Inr st1 \<Rightarrow> (OK, st1)))"


section \<open>Datapath nodes\<close>

text \<open>
  Modelled from the spec: \<^verbatim>\<open>ip6_set_fields\<close> is missing; it fills the IPv6
  header of a packet built here with its source and destination, and the
  hop limit 255 of neighbour discovery (spec 4.D).
\<close>

definition ip6_set_fields :: "ip6_addr \<Rightarrow> ip6_addr \<Rightarrow> mbuf \<Rightarrow> mbuf" where
  "ip6_set_fields src dst pkt = pkt\<lparr>ip6_src := src, ip6_dst := dst, hop_limit := 255\<rparr>"

text \<open>
  \<^verbatim>\<open>rte_pktmbuf_copy\<close> (DPDK): a full copy in a buffer of the packet pool,
  \<^verbatim>\<open>NULL\<close> when the pool has none left.
\<close>

definition rte_pktmbuf_copy :: "mbuf_ptr \<Rightarrow> state \<Rightarrow> (mbuf_ptr \<times> state) option" where
  "rte_pktmbuf_copy m st =
     (case mbuf_pool st of
        [] \<Rightarrow> None
      | c # rest \<Rightarrow> Some (c, st\<lparr>mbuf_pool := rest, mbufs := (mbufs st)(c := mbufs st m)\<rparr>))"

subsection \<open>\<^verbatim>\<open>ndp_ns_input\<close>\<close>

datatype ns_input_edge = NSI_IP_OUTPUT | NSI_CONTROL | NSI_INVAL | NSI_ERROR | NSI_IGNORE

text \<open>
  Lines 142 to 180: the packet buffer is reused for the neighbour
  advertisement. \<open>src\<close> is the local variable of that name: the source of
  the solicitation, or the all-nodes address.
\<close>

definition ns_input_reply ::
  "mbuf_ptr \<Rightarrow> nh_ptr \<Rightarrow> ip6_addr \<Rightarrow> bool \<Rightarrow> nh_ptr option \<Rightarrow> state \<Rightarrow> state" where
  "ns_input_reply m local src solicited remote st =
     st\<lparr>mbufs := (mbufs st)(m :=
        ip6_set_fields (ipv6 (nhs st local)) src
          ((mbufs st m)
             \<lparr>icmp6_type := ICMP6_TYPE_NEIGH_ADVERT,
              icmp6_code := 0,
              nd_override := True,
              nd_router := True,
              nd_solicited := solicited,
              nd_target := ipv6 (nhs st local),
              nd_opts := [(ICMP6_OPT_TARGET_LLADDR, lladdr (nhs st local))],
              out_nh := (case remote of Some r \<Rightarrow> Some r | None \<Rightarrow> Some local)\<rparr>))\<rparr>"

text \<open>
  One turn of the loop of \<^verbatim>\<open>ndp_ns_input_process\<close>: the calls of
  \<^verbatim>\<open>rte_node_enqueue_x1\<close> in their order, and the state.
\<close>

definition ndp_ns_input_one ::
  "config \<Rightarrow> mbuf_ptr \<Rightarrow> state \<Rightarrow> (ns_input_edge \<times> mbuf_ptr) list \<times> state" where
  "ndp_ns_input_one cfg m st =
     (let d = mbufs st m; ifp = md_iface d; src = ip6_src d; dst = ip6_dst d in
      if hop_limit d \<noteq> 255 then ([(NSI_INVAL, m)], st)
      else if icmp6_code d \<noteq> 0 then ([(NSI_INVAL, m)], st)
      else if \<not> 0 \<le> l4_len d then ([(NSI_INVAL, m)], st)
      else if rte_ipv6_addr_is_mcast (nd_target d) then ([(NSI_INVAL, m)], st)
      else
        case ip6_nexthop_lookup cfg (if_vrf_id ifp) (if_id ifp) (nd_target d) st of
          None \<Rightarrow> ([(NSI_IGNORE, m)], st)
        | Some local \<Rightarrow>
            if \<not> nh_flag (flags (nhs st local)) GR_NH_F_LOCAL then ([(NSI_IGNORE, m)], st)
            else
              (let lladdr_found = icmp6_get_opt d ICMP6_OPT_SRC_LLADDR in
               if rte_ipv6_addr_is_unspec src then
                 if \<not> rte_ipv6_addr_is_mcast dst then ([(NSI_INVAL, m)], st)
                 else if lladdr_found \<noteq> None then ([(NSI_INVAL, m)], st)
                 else ([(NSI_IP_OUTPUT, m)],
                       ns_input_reply m local RTE_IPV6_ADDR_ALLNODES_LINK_LOCAL False None st)
               else
                 (let remote = ip6_nexthop_lookup cfg (if_vrf_id ifp) (if_id ifp) src st in
                  case lladdr_found of
                    None \<Rightarrow> ([(NSI_IP_OUTPUT, m)], ns_input_reply m local src True remote st)
                  | Some mac \<Rightarrow>
                      (case rte_pktmbuf_copy m st of
                         None \<Rightarrow> ([(NSI_ERROR, m)], st)
                       | Some (copy, st1) \<Rightarrow>
                           (let st2 = st1\<lparr>mbufs := (mbufs st1)(copy := (mbufs st1 copy)
                                        \<lparr>nd_target := src, md_iface := ifp,
                                         ctl_callback := Some CB_ndp_probe_input\<rparr>)\<rparr>
                            in ([(NSI_CONTROL, copy), (NSI_IP_OUTPUT, m)],
                                ns_input_reply m local src True remote st2))))))"

fun ndp_ns_input_process ::
  "config \<Rightarrow> mbuf_ptr list \<Rightarrow> state \<Rightarrow> (ns_input_edge \<times> mbuf_ptr) list \<times> state" where
  "ndp_ns_input_process cfg [] st = ([], st)"
| "ndp_ns_input_process cfg (m # objs) st =
     (case ndp_ns_input_one cfg m st of
        (out, st1) \<Rightarrow>
          (case ndp_ns_input_process cfg objs st1 of (outs, st2) \<Rightarrow> (out @ outs, st2)))"

text \<open>
  \<open>ns_local\<close>: the target of the solicitation resolves to a \<open>LOCAL\<close>
  nexthop on the receiving interface. \<open>ns_inval\<close>: the tests of
  \<^verbatim>\<open>ndp_ns_input_process\<close> that lead to the edge \<^verbatim>\<open>INVAL\<close>, as the code
  has them.
\<close>

definition ns_local :: "config \<Rightarrow> mbuf_ptr \<Rightarrow> state \<Rightarrow> bool" where
  "ns_local cfg m st =
     (case ip6_nexthop_lookup cfg (if_vrf_id (md_iface (mbufs st m))) (if_id (md_iface (mbufs st m)))
             (nd_target (mbufs st m)) st of
        None \<Rightarrow> False
      | Some local \<Rightarrow> nh_flag (flags (nhs st local)) GR_NH_F_LOCAL)"

definition ns_inval :: "config \<Rightarrow> mbuf_ptr \<Rightarrow> state \<Rightarrow> bool" where
  "ns_inval cfg m st =
     (hop_limit (mbufs st m) \<noteq> 255
      \<or> icmp6_code (mbufs st m) \<noteq> 0
      \<or> rte_ipv6_addr_is_mcast (nd_target (mbufs st m))
      \<or> (ns_local cfg m st
          \<and> rte_ipv6_addr_is_unspec (ip6_src (mbufs st m))
          \<and> (\<not> rte_ipv6_addr_is_mcast (ip6_dst (mbufs st m))
              \<or> icmp6_get_opt (mbufs st m) ICMP6_OPT_SRC_LLADDR \<noteq> None)))"

subsection \<open>\<^verbatim>\<open>ndp_ns_output\<close>\<close>

datatype ns_output_edge = NSO_OUTPUT | NSO_ERROR

text \<open>
  One turn of the loop of \<^verbatim>\<open>ndp_ns_output_process\<close>; \<open>now\<close> is the value
  of \<^verbatim>\<open>rte_get_tsc_cycles()\<close> in that turn. The packet carries the nexthop
  to solicit in \<^verbatim>\<open>control_input_mbuf_data(mbuf)->data\<close>.
\<close>

definition ndp_ns_output_one ::
  "config \<Rightarrow> nat \<Rightarrow> mbuf_ptr \<Rightarrow> state \<Rightarrow> (ns_output_edge \<times> mbuf_ptr) \<times> state" where
  "ndp_ns_output_one cfg now m st =
     (case ctl_data (mbufs st m) of
        None \<Rightarrow> ((NSO_ERROR, m), st)
      | Some nh \<Rightarrow>
          (case addr_preferred st (iface_id (nhs st nh)) (ipv6 (nhs st nh)) of
             None \<Rightarrow> ((NSO_ERROR, m), st)
           | Some local \<Rightarrow>
               (let st1 = st\<lparr>mbufs := (mbufs st)(m := (mbufs st m)
                            \<lparr>icmp6_type := ICMP6_TYPE_NEIGH_SOLICIT,
                             icmp6_code := 0,
                             nd_target := ipv6 (nhs st nh),
                             nd_opts := [(ICMP6_OPT_SRC_LLADDR, lladdr (nhs st local))]\<rparr>)\<rparr>;
                    (dst, st2) =
                      (if last_reply (nhs st1 nh) \<noteq> 0
                          \<and> ucast_probes (nhs st1 nh) < NH_UCAST_PROBES cfg
                       then (ipv6 (nhs st1 nh),
                             st1\<lparr>nhs := (nhs st1)(nh := (nhs st1 nh)
                                   \<lparr>ucast_probes := ucast_probes (nhs st1 nh) + 1\<rparr>)\<rparr>)
                       else (rte_ipv6_solnode_from_addr (ipv6 (nhs st1 nh)),
                             st1\<lparr>nhs := (nhs st1)(nh := (nhs st1 nh)
                                   \<lparr>bcast_probes := bcast_probes (nhs st1 nh) + 1\<rparr>)\<rparr>));
                    st3 = st2\<lparr>mbufs := (mbufs st2)(m :=
                            ip6_set_fields (ipv6 (nhs st2 local)) dst (mbufs st2 m))\<rparr>;
                    st4 = st3\<lparr>nhs := (nhs st3)(nh := (nhs st3 nh)\<lparr>last_request := now\<rparr>)\<rparr>;
                    st5 = st4\<lparr>mbufs := (mbufs st4)(m := (mbufs st4 m)\<lparr>out_nh := Some nh\<rparr>)\<rparr>
                in ((NSO_OUTPUT, m), st5))))"

text \<open>The loop, with the clock values of its turns.\<close>

fun ndp_ns_output_process ::
  "config \<Rightarrow> (nat \<times> mbuf_ptr) list \<Rightarrow> state \<Rightarrow> (ns_output_edge \<times> mbuf_ptr) list \<times> state" where
  "ndp_ns_output_process cfg [] st = ([], st)"
| "ndp_ns_output_process cfg ((now, m) # objs) st =
     (case ndp_ns_output_one cfg now m st of
        (out, st1) \<Rightarrow>
          (case ndp_ns_output_process cfg objs st1 of (outs, st2) \<Rightarrow> (out # outs, st2)))"

section \<open>The hold queue as a list\<close>

text \<open>
  The hold queue of a nexthop is a chain through \<^verbatim>\<open>queue_mbuf_data(m)->next\<close>
  from \<open>held_pkts_head\<close> to \<^verbatim>\<open>NULL\<close>. \<open>held_chain mb h ps\<close>: the chain
  that starts at \<open>h\<close> is the list \<open>ps\<close>, oldest packet first.
  \<open>held_queue st nh ps\<close>: the hold queue of \<open>nh\<close> is \<open>ps\<close>, no packet is
  in it twice, the counter is its length and the tail pointer is its last
  packet.
\<close>

fun held_chain :: "(mbuf_ptr \<Rightarrow> mbuf) \<Rightarrow> mbuf_ptr option \<Rightarrow> mbuf_ptr list \<Rightarrow> bool" where
  "held_chain mb h [] = (h = None)"
| "held_chain mb h (p # ps) = (h = Some p \<and> held_chain mb (q_next (mb p)) ps)"

definition held_queue :: "state \<Rightarrow> nh_ptr \<Rightarrow> mbuf_ptr list \<Rightarrow> bool" where
  "held_queue st nh ps =
     (held_chain (mbufs st) (held_pkts_head (nhs st nh)) ps
      \<and> distinct ps
      \<and> held_pkts_num (nhs st nh) = length ps
      \<and> (ps = [] \<or> held_pkts_tail (nhs st nh) = Some (last ps)))"

text \<open>One turn of the flush loop of \<^verbatim>\<open>ndp_probe_input_cb\<close>, on the packet \<open>h\<close>.\<close>

definition flush_step :: "config \<Rightarrow> nh_ptr \<Rightarrow> mbuf_ptr \<Rightarrow> state \<Rightarrow> state" where
  "flush_step cfg nh h st =
     snd (post_to_stack cfg ip6_output_node h
            (st\<lparr>mbufs := (mbufs st)(h := (mbufs st h)\<lparr>out_nh := Some nh, out_iface := None\<rparr>)\<rparr>))"

text \<open>The bound of the spec's invariant 2, on every nexthop of the pool.\<close>

definition held_bound :: "config \<Rightarrow> state \<Rightarrow> bool" where
  "held_bound cfg st = (\<forall>p. held_pkts_num (nhs st p) \<le> NH_MAX_HELD_PKTS cfg)"

text \<open>
  An uninitialized gateway entry for an address: an entry of the index for
  that address in the vrf, with the flag \<open>GATEWAY\<close> and no interface yet.
\<close>

definition unbound_gateway :: "config \<Rightarrow> 16 word \<Rightarrow> ip6_addr \<Rightarrow> state \<Rightarrow> bool" where
  "unbound_gateway cfg vrf ip st =
     list_ex (\<lambda>p. nh_matches vrf GR_IFACE_ID_UNDEF ip (nhs st p)
                   \<and> nh_flag (flags (nhs st p)) GR_NH_F_GATEWAY
                   \<and> iface_id (nhs st p) = GR_IFACE_ID_UNDEF)
       [0 ..< IP6_MAX_NEXT_HOPS cfg]"

section \<open>Example states\<close>

definition cfg_ex :: config where
  "cfg_ex = \<lparr>NH_MAX_HELD_PKTS = 2, NH_UCAST_PROBES = 3, MAX_VRFS = 4, IP6_MAX_NEXT_HOPS = 4,
     RING_SIZE = 4\<rparr>"

definition iface_ex :: iface where
  "iface_ex = \<lparr>if_id = 1, if_vrf_id = 0\<rparr>"

definition mbuf_ex :: mbuf where
  "mbuf_ex = \<lparr>ip6_src = 0, ip6_dst = 0, hop_limit = 255, l4_len = 32, icmp6_type = 0, icmp6_code = 0,
     nd_target = 0, nd_router = False, nd_solicited = False, nd_override = False, nd_opts = [],
     md_iface = iface_ex, q_next = None, out_nh = None, out_iface = None, ctl_data = None,
     ctl_callback = None\<rparr>"

text \<open>An empty router with one interface, a pool of four nexthops and no route.\<close>

definition state_ex :: state where
  "state_ex = \<lparr>nhs = (\<lambda>_. nexthop_init 0 0 0), free_list = [0, 1, 2, 3], routes = [],
     ifaces = (\<lambda>_. None)(1 := Some iface_ex), addr_preferred = (\<lambda>_ _. None),
     mbufs = (\<lambda>_. mbuf_ex), mbuf_pool = [], ring = [], freed = []\<rparr>"

definition peer_ip :: ip6_addr where "peer_ip = 0xfe800000000000000000000000000002"
definition peer_mac :: eth_addr where "peer_mac = 0xbbbbbbbbbb02"
definition other_mac :: eth_addr where "other_mac = 0xdddddddddd04"

text \<open>
  The neighbour \<open>fe80::2\<close> is being resolved: its nexthop is pending and
  holds the packets 1 and 2; packet 0 is its neighbour advertisement.
\<close>

definition probe_state :: state where
  "probe_state = state_ex
     \<lparr>nhs := (nhs state_ex)(0 := (nexthop_init 0 1 peer_ip)
         \<lparr>flags := GR_NH_F_PENDING, ref_count := 1, held_pkts_num := 2,
          held_pkts_head := Some 1, held_pkts_tail := Some 2\<rparr>),
      free_list := [1, 2, 3],
      routes := [\<lparr>r_vrf = 0, r_ip = peer_ip, r_len = 128, r_nh = 0\<rparr>],
      mbufs := (mbufs state_ex)
        (0 := mbuf_ex\<lparr>icmp6_type := ICMP6_TYPE_NEIGH_ADVERT, nd_target := peer_ip,
                      nd_opts := [(ICMP6_OPT_TARGET_LLADDR, peer_mac)]\<rparr>,
         1 := mbuf_ex\<lparr>ip6_dst := peer_ip, q_next := Some 2\<rparr>,
         2 := mbuf_ex\<lparr>ip6_dst := peer_ip\<rparr>)\<rparr>"

text \<open>
  The neighbour \<open>fe80::2\<close> was added by the operator with the address
  \<open>peer_mac\<close>; packet 0 is an advertisement that carries another one.
\<close>

definition static_state :: state where
  "static_state = state_ex
     \<lparr>nhs := (nhs state_ex)(0 := (nexthop_init 0 1 peer_ip)
         \<lparr>flags := GR_NH_F_STATIC OR GR_NH_F_REACHABLE, lladdr := peer_mac, ref_count := 1\<rparr>),
      free_list := [1, 2, 3],
      routes := [\<lparr>r_vrf = 0, r_ip = peer_ip, r_len = 128, r_nh = 0\<rparr>],
      mbufs := (mbufs state_ex)
        (0 := mbuf_ex\<lparr>icmp6_type := ICMP6_TYPE_NEIGH_ADVERT, nd_target := peer_ip,
                      nd_opts := [(ICMP6_OPT_TARGET_LLADDR, other_mac)]\<rparr>)\<rparr>"

text \<open>
  A connected /64 route through the \<open>LINK\<close> nexthop \<open>2001:db8::1\<close>;
  packet 0 is for the host \<open>2001:db8::2\<close>, which has no nexthop yet.
\<close>

definition link_ip :: ip6_addr where "link_ip = 0x20010db8000000000000000000000001"
definition host_ip :: ip6_addr where "host_ip = 0x20010db8000000000000000000000002"

definition link_state :: state where
  "link_state = state_ex
     \<lparr>nhs := (nhs state_ex)(0 := (nexthop_init 0 1 link_ip)
         \<lparr>flags := GR_NH_F_LINK OR GR_NH_F_REACHABLE, ref_count := 1\<rparr>),
      free_list := [1, 2, 3],
      routes := [\<lparr>r_vrf = 0, r_ip = link_ip, r_len = 64, r_nh = 0\<rparr>],
      mbufs := (mbufs state_ex)(0 := mbuf_ex\<lparr>ip6_dst := host_ip\<rparr>)\<rparr>"

text \<open>
  Packet 3 is for \<open>fe80::2\<close>: in \<open>hold_state\<close> the hold queue of its
  nexthop is full, in \<open>fresh_state\<close> the nexthop is new and holds nothing.
\<close>

definition hold_state :: state where
  "hold_state = probe_state\<lparr>mbufs := (mbufs probe_state)(3 := mbuf_ex\<lparr>ip6_dst := peer_ip\<rparr>)\<rparr>"

definition fresh_state :: state where
  "fresh_state = state_ex
     \<lparr>nhs := (nhs state_ex)(0 := (nexthop_init 0 1 peer_ip)\<lparr>ref_count := 1\<rparr>),
      free_list := [1, 2, 3],
      routes := [\<lparr>r_vrf = 0, r_ip = peer_ip, r_len = 128, r_nh = 0\<rparr>],
      mbufs := (mbufs state_ex)(3 := mbuf_ex\<lparr>ip6_dst := peer_ip\<rparr>)\<rparr>"



text \<open>
  The operator adds \<open>fe80::2\<close> on interface 1 of a router with two
  interfaces; \<open>added_state\<close> is the state after the request.
\<close>

definition two_if_state :: state where
  "two_if_state = state_ex\<lparr>ifaces := (ifaces state_ex)(2 := Some \<lparr>if_id = 2, if_vrf_id = 0\<rparr>)\<rparr>"

definition add_req_ex :: gr_ip6_nh_add_req where
  "add_req_ex = \<lparr>add_vrf_id = 0, add_iface_id = 1, add_ipv6 = peer_ip, add_mac = peer_mac,
     exist_ok = True\<rparr>"

definition added_state :: state where
  "added_state = two_if_state
     \<lparr>nhs := (nhs two_if_state)(0 := (nexthop_init 0 1 peer_ip)
         \<lparr>flags := GR_NH_F_STATIC OR GR_NH_F_REACHABLE, lladdr := peer_mac, ref_count := 1\<rparr>),
      free_list := [1, 2, 3],
      routes := [\<lparr>r_vrf = 0, r_ip = peer_ip, r_len = 128, r_nh = 0\<rparr>]\<rparr>"



definition del_req_ex :: gr_ip6_nh_del_req where
  "del_req_ex = \<lparr>del_vrf_id = 0, del_host = peer_ip, missing_ok = False\<rparr>"

text \<open>
  The nexthop of \<open>fe80::2\<close> after its /128 route has left the table: the
  one reference on it is held by the route of \<open>2001:db9::/64\<close>.
\<close>

definition via_ip :: ip6_addr where "via_ip = 0x20010db9000000000000000000000000"

definition unrouted_state :: state where
  "unrouted_state = added_state\<lparr>routes := [\<lparr>r_vrf = 0, r_ip = via_ip, r_len = 64, r_nh = 0\<rparr>]\<rparr>"

text \<open>
  The router owns \<open>fe80::1\<close> on interface 1. The packets are neighbour
  solicitations from the unspecified source: 0 for \<open>fe80::1\<close> to its
  solicited-node address, 2 the same to a unicast destination, 3 for an
  address that is not local, 4 to the all-nodes address.
\<close>

definition local_ip :: ip6_addr where "local_ip = 0xfe800000000000000000000000000001"
definition local_mac :: eth_addr where "local_mac = 0xaaaaaaaaaa01"
definition solnode_ip :: ip6_addr where "solnode_ip = 0xff0200000000000000000001ff000001"

definition ns_ex :: mbuf where
  "ns_ex = mbuf_ex\<lparr>icmp6_type := ICMP6_TYPE_NEIGH_SOLICIT, nd_target := local_ip,
     ip6_src := 0, ip6_dst := solnode_ip\<rparr>"

definition local_state :: state where
  "local_state = state_ex
     \<lparr>nhs := (nhs state_ex)(0 := (nexthop_init 0 1 local_ip)
         \<lparr>flags := GR_NH_F_LOCAL OR GR_NH_F_REACHABLE, lladdr := local_mac, ref_count := 1\<rparr>),
      free_list := [1, 2, 3],
      routes := [\<lparr>r_vrf = 0, r_ip = local_ip, r_len = 128, r_nh = 0\<rparr>],
      mbufs := (mbufs state_ex)
        (0 := ns_ex,
         2 := ns_ex\<lparr>ip6_dst := peer_ip\<rparr>,
         3 := ns_ex\<lparr>ip6_dst := peer_ip, nd_target := peer_ip\<rparr>,
         4 := ns_ex\<lparr>ip6_dst := RTE_IPV6_ADDR_ALLNODES_LINK_LOCAL\<rparr>)\<rparr>"

text \<open>
  Two nexthops to solicit: slot 2 has never had a reply, slot 3 had one at
  time 5. Packets 5 and 6 carry them to \<^verbatim>\<open>ndp_ns_output\<close>.
\<close>

definition solicit_state :: state where
  "solicit_state = state_ex
     \<lparr>nhs := (nhs state_ex)
        (0 := (nexthop_init 0 1 local_ip)
           \<lparr>flags := GR_NH_F_LOCAL OR GR_NH_F_REACHABLE, lladdr := local_mac, ref_count := 1\<rparr>,
         2 := (nexthop_init 0 1 peer_ip)\<lparr>flags := GR_NH_F_PENDING, ref_count := 1\<rparr>,
         3 := (nexthop_init 0 1 host_ip)
           \<lparr>flags := GR_NH_F_REACHABLE OR GR_NH_F_STALE, lladdr := other_mac, ref_count := 1,
            last_reply := 5\<rparr>),
      free_list := [1],
      addr_preferred := (\<lambda>i a. if i = 1 then Some 0 else None),
      mbufs := (mbufs state_ex)
        (5 := mbuf_ex\<lparr>ctl_data := Some 2\<rparr>, 6 := mbuf_ex\<lparr>ctl_data := Some 3\<rparr>)\<rparr>"

text \<open>
  The neighbour \<open>fe80::2\<close> is known on interface 2, with its /128 route;
  packet 0 is its advertisement, received on interface 1.
\<close>

definition clash_state :: state where
  "clash_state = state_ex
     \<lparr>nhs := (nhs state_ex)(0 := (nexthop_init 0 2 peer_ip)\<lparr>ref_count := 1\<rparr>),
      free_list := [1, 2, 3],
      routes := [\<lparr>r_vrf = 0, r_ip = peer_ip, r_len = 128, r_nh = 0\<rparr>],
      mbufs := (mbufs state_ex)
        (0 := mbuf_ex\<lparr>icmp6_type := ICMP6_TYPE_NEIGH_ADVERT, nd_target := peer_ip,
                      nd_opts := [(ICMP6_OPT_TARGET_LLADDR, peer_mac)]\<rparr>)\<rparr>"

definition clash_created :: state where
  "clash_created = clash_state
     \<lparr>free_list := [2, 3], nhs := (nhs clash_state)(1 := nexthop_init 0 1 peer_ip)\<rparr>"

text \<open>
  Variants of \<open>link_state\<close>, in which packet 0 is for \<open>2001:db8::2\<close>, an
  address of the connected prefix with no nexthop yet. In \<open>found_state\<close>
  slot 1 holds a nexthop for that address on interface 1, referenced by the
  route of \<open>2001:db9::/64\<close>; in \<open>other_if_state\<close> that nexthop and the
  packet are on interface 2; in \<open>gateway_state\<close> it is a gateway entry
  with no interface yet. In \<open>pool_full_state\<close> the three other slots of the
  pool hold neighbours with their /128 routes and the free list is empty.
\<close>

definition via_route :: route where
  "via_route = \<lparr>r_vrf = 0, r_ip = via_ip, r_len = 64, r_nh = 1\<rparr>"

definition found_state :: state where
  "found_state = link_state
     \<lparr>nhs := (nhs link_state)(1 := (nexthop_init 0 1 host_ip)\<lparr>ref_count := 1\<rparr>),
      free_list := [2, 3],
      routes := routes link_state @ [via_route]\<rparr>"

definition other_if_state :: state where
  "other_if_state = link_state
     \<lparr>nhs := (nhs link_state)(1 := (nexthop_init 0 2 host_ip)\<lparr>ref_count := 1\<rparr>),
      free_list := [2, 3],
      routes := routes link_state @ [via_route],
      ifaces := (ifaces link_state)(2 := Some \<lparr>if_id = 2, if_vrf_id = 0\<rparr>),
      mbufs := (mbufs link_state)(0 := mbuf_ex\<lparr>ip6_dst := host_ip,
         md_iface := \<lparr>if_id = 2, if_vrf_id = 0\<rparr>\<rparr>)\<rparr>"

definition gateway_state :: state where
  "gateway_state = link_state
     \<lparr>nhs := (nhs link_state)(1 := (nexthop_init 0 0 host_ip)
         \<lparr>flags := GR_NH_F_GATEWAY, ref_count := 1\<rparr>),
      free_list := [2, 3],
      routes := routes link_state @ [via_route]\<rparr>"

definition pool_full_state :: state where
  "pool_full_state = link_state
     \<lparr>nhs := (nhs link_state)
         (1 := (nexthop_init 0 1 0xfe800000000000000000000000000002)\<lparr>ref_count := 1\<rparr>,
          2 := (nexthop_init 0 1 0xfe800000000000000000000000000003)\<lparr>ref_count := 1\<rparr>,
          3 := (nexthop_init 0 1 0xfe800000000000000000000000000004)\<lparr>ref_count := 1\<rparr>),
      free_list := [],
      routes := routes link_state @
        [\<lparr>r_vrf = 0, r_ip = 0xfe800000000000000000000000000002, r_len = 128, r_nh = 1\<rparr>,
         \<lparr>r_vrf = 0, r_ip = 0xfe800000000000000000000000000003, r_len = 128, r_nh = 2\<rparr>,
         \<lparr>r_vrf = 0, r_ip = 0xfe800000000000000000000000000004, r_len = 128, r_nh = 3\<rparr>]\<rparr>"

section \<open>Verification\<close>

subsection \<open>Flags, addresses\<close>

lemma peer_ip_valid: "\<not> rte_ipv6_addr_is_unspec peer_ip" "\<not> rte_ipv6_addr_is_mcast peer_ip"
  by (simp_all add: rte_ipv6_addr_is_unspec_def rte_ipv6_addr_is_mcast_def peer_ip_def)

lemma nh_flag_or: "f \<noteq> 0 \<Longrightarrow> nh_flag (fl OR f) f"
  unfolding nh_flag_def
  by (simp add: bit.conj_disj_distrib2)

lemma nh_flag_clear: "f AND m = f \<Longrightarrow> \<not> nh_flag (fl AND NOT m) f"
proof -
  assume a: "f AND m = f"
  have "(fl AND NOT m) AND f = (fl AND NOT m) AND (f AND m)" using a by simp
  also have "\<dots> = fl AND f AND (NOT m AND m)" by (simp add: ac_simps)
  also have "\<dots> = 0" by simp
  finally show ?thesis by (simp add: nh_flag_def)
qed

lemma nh_flag_keep: "f AND m = 0 \<Longrightarrow> nh_flag (fl AND NOT m) f = nh_flag fl f"
proof -
  assume a: "f AND m = 0"
  have b: "NOT m AND f = f"
    by (rule bit_eqI) (use a in \<open>auto simp: bit_simps bit_eq_iff\<close>)
  have "(fl AND NOT m) AND f = fl AND (NOT m AND f)"
    by (simp add: and.assoc)
  then have "(fl AND NOT m) AND f = fl AND f"
    by (simp only: b)
  then show ?thesis by (simp only: nh_flag_def)
qed

subsection \<open>The flush loop\<close>

lemma flush_held_nhs:
  "flush_held cfg nh held st = Some st' \<Longrightarrow> nhs st' = nhs st"
proof (rule flush_held.raw_induct [where P = "\<lambda>cfg nh held st st'. nhs st' = nhs st"])
  show "flush_held cfg nh held st = Some st'" if "flush_held cfg nh held st = Some st'"
    using that .
next
  fix flush :: "config \<Rightarrow> nh_ptr \<Rightarrow> mbuf_ptr option \<Rightarrow> state \<Rightarrow> state option"
    and cfg nh held st st'
  assume IH: "\<And>cfg nh held st st'. flush cfg nh held st = Some st' \<Longrightarrow> nhs st' = nhs st"
    and step: "(case held of None \<Rightarrow> Some st
      | Some h \<Rightarrow>
          let next = q_next (mbufs st h);
              st1 = st\<lparr>mbufs := (mbufs st)(h := mbufs st h\<lparr>out_nh := Some nh, out_iface := None\<rparr>)\<rparr>
          in Let (snd (post_to_stack cfg ip6_output_node h st1)) (flush cfg nh next)) = Some st'"
  show "nhs st' = nhs st"
  proof (cases held)
    case None
    with step show ?thesis by simp
  next
    case (Some h)
    with step have "flush cfg nh (q_next (mbufs st h))
        (snd (post_to_stack cfg ip6_output_node h
          (st\<lparr>mbufs := (mbufs st)(h := mbufs st h\<lparr>out_nh := Some nh, out_iface := None\<rparr>)\<rparr>))) = Some st'"
      by (simp add: Let_def)
    from IH [OF this] show ?thesis
      by (simp add: post_to_stack_def split: if_splits)
  qed
qed

lemma flush_step_q_next: "q_next (mbufs (flush_step cfg nh h st) p) = q_next (mbufs st p)"
  by (simp add: flush_step_def post_to_stack_def)

lemma held_chain_cong: "(\<And>p. q_next (mb' p) = q_next (mb p)) \<Longrightarrow> held_chain mb' h ps = held_chain mb h ps"
  by (induction ps arbitrary: h) auto

lemma flush_held_None: "flush_held cfg nh None st = Some st"
  by (subst flush_held.simps) simp

lemma flush_held_Some:
  "flush_held cfg nh (Some h) st = flush_held cfg nh (q_next (mbufs st h)) (flush_step cfg nh h st)"
  by (subst flush_held.simps) (simp add: flush_step_def Let_def)

lemma flush_held_chain:
  "held_chain (mbufs st) held ps \<Longrightarrow> flush_held cfg nh held st = Some (fold (flush_step cfg nh) ps st)"
proof (induction ps arbitrary: held st)
  case Nil
  then show ?case by (simp add: flush_held_None)
next
  case (Cons p ps)
  from Cons.prems have h: "held = Some p" and c: "held_chain (mbufs st) (q_next (mbufs st p)) ps"
    by simp_all
  have "held_chain (mbufs (flush_step cfg nh p st)) (q_next (mbufs st p)) ps"
    using c by (simp add: held_chain_cong [OF flush_step_q_next])
  from Cons.IH [OF this] show ?case
    using h by (simp add: flush_held_Some)
qed



lemma fold_flush_nhs: "nhs (fold (flush_step cfg nh) ps st) = nhs st"
  by (induction ps arbitrary: st) (simp_all add: flush_step_def post_to_stack_def)

lemma fold_flush_other:
  "free_list (fold (flush_step cfg nh) ps st) = free_list st
   \<and> routes (fold (flush_step cfg nh) ps st) = routes st
   \<and> freed (fold (flush_step cfg nh) ps st) = freed st"
  by (induction ps arbitrary: st) (simp_all add: flush_step_def post_to_stack_def)

lemma fold_flush_ring:
  "length (ring st) + length ps \<le> RING_SIZE cfg \<Longrightarrow>
   ring (fold (flush_step cfg nh) ps st) = ring st @ map (Pair ip6_output_node) ps"
  by (induction ps arbitrary: st) (simp_all add: flush_step_def post_to_stack_def)

lemma fold_flush_out_nh:
  "out_nh (mbufs (fold (flush_step cfg nh) ps st) h) = (if h \<in> set ps then Some nh else out_nh (mbufs st h))"
  by (induction ps arbitrary: st) (auto simp: flush_step_def post_to_stack_def)

subsection \<open>\<^verbatim>\<open>ndp_probe_input_cb\<close>\<close>

lemma probe_lladdr_None:
  assumes "(icmp6_type pkt \<noteq> ICMP6_TYPE_NEIGH_SOLICIT \<and> icmp6_type pkt \<noteq> ICMP6_TYPE_NEIGH_ADVERT)
     \<or> (icmp6_type pkt = ICMP6_TYPE_NEIGH_SOLICIT \<and> icmp6_get_opt pkt ICMP6_OPT_SRC_LLADDR = None)
     \<or> (icmp6_type pkt = ICMP6_TYPE_NEIGH_ADVERT \<and> icmp6_get_opt pkt ICMP6_OPT_TARGET_LLADDR = None)"
  shows "probe_lladdr pkt = None"
  using assms
  by (auto simp: probe_lladdr_def ICMP6_TYPE_NEIGH_SOLICIT_def ICMP6_TYPE_NEIGH_ADVERT_def)

text \<open>
  Claim C10. A packet posted to \<^verbatim>\<open>ndp_probe_input_cb\<close> whose ICMPv6 type
  is neither neighbour solicit nor neighbour advert, or which has no source
  link-layer address option (solicit) or no target link-layer address option
  (advert), is freed, and the callback returns with nothing else changed: no
  nexthop created, no route inserted, no nexthop mutated. The state after the
  callback is the state before it with the packet added to the freed ones.
\<close>

theorem ndp_probe_input_cb_no_lladdr:
  assumes "(icmp6_type (mbufs st m) \<noteq> ICMP6_TYPE_NEIGH_SOLICIT
              \<and> icmp6_type (mbufs st m) \<noteq> ICMP6_TYPE_NEIGH_ADVERT)
     \<or> (icmp6_type (mbufs st m) = ICMP6_TYPE_NEIGH_SOLICIT
              \<and> icmp6_get_opt (mbufs st m) ICMP6_OPT_SRC_LLADDR = None)
     \<or> (icmp6_type (mbufs st m) = ICMP6_TYPE_NEIGH_ADVERT
              \<and> icmp6_get_opt (mbufs st m) ICMP6_OPT_TARGET_LLADDR = None)"
  shows "ndp_probe_input_cb cfg now m st = Some (st\<lparr>freed := freed st @ [m]\<rparr>)"
  using probe_lladdr_None [OF assms]
  by (simp add: ndp_probe_input_cb_def rte_pktmbuf_free_def)

theorem ndp_probe_input_cb_no_lladdr_witness:
  "ndp_probe_input_cb cfg_ex 7 0 state_ex = Some (state_ex\<lparr>freed := [0]\<rparr>)"
  using ndp_probe_input_cb_no_lladdr [of state_ex 0 cfg_ex 7]
  by (simp add: state_ex_def mbuf_ex_def ICMP6_TYPE_NEIGH_SOLICIT_def ICMP6_TYPE_NEIGH_ADVERT_def)

lemma ip6_nexthop_new_other:
  "ip6_nexthop_new vrf ifid ip st = Inr (nh, st1) \<Longrightarrow> p \<notin> set (free_list st) \<Longrightarrow>
   nh \<noteq> p \<and> nhs st1 p = nhs st p \<and> p \<notin> set (free_list st1)"
  by (auto simp: ip6_nexthop_new_def split: if_splits list.splits)

lemma ip6_route_insert_other:
  "ip6_route_insert vrf ifid ip len nh st = Inr st1 \<Longrightarrow> nh \<noteq> p \<Longrightarrow> nhs st1 p = nhs st p"
  by (auto simp: ip6_route_insert_def nexthop_incref_def split: option.splits)

lemma probe_nexthop_Inl:
  "probe_nexthop cfg ifp target st = Inl st1 \<Longrightarrow> p \<notin> set (free_list st) \<Longrightarrow> nhs st1 p = nhs st p"
  by (auto simp: probe_nexthop_def split: option.splits sum.splits dest: ip6_nexthop_new_other)

lemma probe_nexthop_Inr:
  assumes "probe_nexthop cfg ifp target st = Inr (nh, st1)" and "p \<notin> set (free_list st)"
  shows "(nh = p \<and> st1 = st) \<or> (nh \<noteq> p \<and> nhs st1 p = nhs st p)"
proof (cases "ip6_nexthop_lookup cfg (if_vrf_id ifp) (if_id ifp) target st")
  case (Some q)
  with assms(1) have "nh = q" "st1 = st" by (simp_all add: probe_nexthop_def)
  then show ?thesis by auto
next
  case None
  with assms(1) obtain st0 where
    new: "ip6_nexthop_new (if_vrf_id ifp) (if_id ifp) target st = Inr (nh, st0)" and
    ins: "ip6_route_insert (if_vrf_id ifp) (if_id ifp) target RTE_IPV6_MAX_DEPTH nh st0 = Inr st1"
    by (auto simp: probe_nexthop_def split: sum.splits)
  from ip6_nexthop_new_other [OF new assms(2)] have "nh \<noteq> p" "nhs st0 p = nhs st p" by simp_all
  with ip6_route_insert_other [OF ins] show ?thesis by simp
qed

text \<open>
  Claim C3. A nexthop with the \<open>STATIC\<close> flag is not changed by any probe
  posted to \<^verbatim>\<open>ndp_probe_input_cb\<close>. The nexthop \<open>p\<close> is a live entry of
  the pool (not on the free list). When the probe is for \<open>p\<close> itself (the
  lookup of the sender finds it), the callback returns and changes nothing
  but the list of freed packets: no address update, no flag change, no
  counter reset, no flush. Whatever the probe, every field of \<open>p\<close> after
  the callback is as before.
\<close>

theorem ndp_probe_input_cb_static:
  assumes static: "nh_flag (flags (nhs st p)) GR_NH_F_STATIC"
    and live: "p \<notin> set (free_list st)"
  shows "(ip6_nexthop_lookup cfg (if_vrf_id (md_iface (mbufs st m))) (if_id (md_iface (mbufs st m)))
            (nd_target (mbufs st m)) st = Some p
          \<longrightarrow> ndp_probe_input_cb cfg now m st = Some (st\<lparr>freed := freed st @ [m]\<rparr>))
       \<and> (\<forall>st'. ndp_probe_input_cb cfg now m st = Some st' \<longrightarrow> nhs st' p = nhs st p)"
proof (intro conjI impI allI)
  assume "ip6_nexthop_lookup cfg (if_vrf_id (md_iface (mbufs st m))) (if_id (md_iface (mbufs st m)))
            (nd_target (mbufs st m)) st = Some p"
  then have "probe_nexthop cfg (md_iface (mbufs st m)) (nd_target (mbufs st m)) st = Inr (p, st)"
    by (simp add: probe_nexthop_def)
  with static show "ndp_probe_input_cb cfg now m st = Some (st\<lparr>freed := freed st @ [m]\<rparr>)"
    by (simp add: ndp_probe_input_cb_def rte_pktmbuf_free_def Let_def split: option.splits)
next
  fix st'
  assume ret: "ndp_probe_input_cb cfg now m st = Some st'"
  show "nhs st' p = nhs st p"
  proof (cases "probe_lladdr (mbufs st m)")
    case None
    with ret show ?thesis
      by (auto simp: ndp_probe_input_cb_def rte_pktmbuf_free_def)
  next
    case (Some mac)
    show ?thesis
    proof (cases "probe_nexthop cfg (md_iface (mbufs st m)) (nd_target (mbufs st m)) st")
      case (Inl st1)
      with Some ret probe_nexthop_Inl [OF Inl live] show ?thesis
        by (auto simp: ndp_probe_input_cb_def rte_pktmbuf_free_def)
    next
      case (Inr r)
      obtain nh st1 where r: "r = (nh, st1)" by (cases r)
      from probe_nexthop_Inr [OF Inr [unfolded r] live]
      consider "nh = p" "st1 = st" | "nh \<noteq> p" "nhs st1 p = nhs st p" by blast
      then show ?thesis
      proof cases
        case 1
        with Some Inr r ret static show ?thesis
          by (auto simp: ndp_probe_input_cb_def rte_pktmbuf_free_def)
      next
        case 2
        with Some Inr r ret show ?thesis
          by (auto simp: ndp_probe_input_cb_def rte_pktmbuf_free_def Let_def
              split: if_splits option.splits dest!: flush_held_nhs)
      qed
    qed
  qed
qed



lemma lookup_static_state: "ip6_nexthop_lookup cfg_ex 0 1 peer_ip static_state = Some 0"
  by (simp add: ip6_nexthop_lookup_def cfg_ex_def static_state_def state_ex_def nh_matches_def
      nexthop_init_def upt_rec)

theorem ndp_probe_input_cb_static_witness:
  "ndp_probe_input_cb cfg_ex 7 0 static_state = Some (static_state\<lparr>freed := [0]\<rparr>)
   \<and> lladdr (nhs static_state 0) = peer_mac"
  using ndp_probe_input_cb_static [of static_state 0 cfg_ex 0 7] lookup_static_state
  by (simp add: static_state_def state_ex_def mbuf_ex_def iface_ex_def nh_flag_def
      GR_NH_F_STATIC_def GR_NH_F_REACHABLE_def)

lemma refresh_flags:
  "nh_flag (flags (probe_refresh now ifp mac nh)) GR_NH_F_REACHABLE"
  "\<not> nh_flag (flags (probe_refresh now ifp mac nh)) GR_NH_F_STALE"
  "\<not> nh_flag (flags (probe_refresh now ifp mac nh)) GR_NH_F_PENDING"
  "\<not> nh_flag (flags (probe_refresh now ifp mac nh)) GR_NH_F_FAILED"
proof -
  let ?m = "GR_NH_F_STALE OR GR_NH_F_PENDING OR GR_NH_F_FAILED"
  have fl: "flags (probe_refresh now ifp mac nh) = (flags nh OR GR_NH_F_REACHABLE) AND NOT ?m"
    by (simp add: probe_refresh_def)
  have a: "GR_NH_F_REACHABLE AND ?m = 0"
    by (simp add: GR_NH_F_REACHABLE_def GR_NH_F_STALE_def GR_NH_F_PENDING_def GR_NH_F_FAILED_def)
  have b: "GR_NH_F_REACHABLE \<noteq> 0" by (simp add: GR_NH_F_REACHABLE_def)
  show "nh_flag (flags (probe_refresh now ifp mac nh)) GR_NH_F_REACHABLE"
    by (simp only: fl nh_flag_keep [OF a] nh_flag_or [OF b])
  have "GR_NH_F_STALE AND ?m = GR_NH_F_STALE"
    by (simp add: GR_NH_F_STALE_def GR_NH_F_PENDING_def GR_NH_F_FAILED_def)
  then show "\<not> nh_flag (flags (probe_refresh now ifp mac nh)) GR_NH_F_STALE"
    by (simp only: fl nh_flag_clear not_False_eq_True)
  have "GR_NH_F_PENDING AND ?m = GR_NH_F_PENDING"
    by (simp add: GR_NH_F_STALE_def GR_NH_F_PENDING_def GR_NH_F_FAILED_def)
  then show "\<not> nh_flag (flags (probe_refresh now ifp mac nh)) GR_NH_F_PENDING"
    by (simp only: fl nh_flag_clear not_False_eq_True)
  have "GR_NH_F_FAILED AND ?m = GR_NH_F_FAILED"
    by (simp add: GR_NH_F_STALE_def GR_NH_F_PENDING_def GR_NH_F_FAILED_def)
  then show "\<not> nh_flag (flags (probe_refresh now ifp mac nh)) GR_NH_F_FAILED"
    by (simp only: fl nh_flag_clear not_False_eq_True)
qed

lemma probe_lladdr_Some:
  assumes "(icmp6_type pkt = ICMP6_TYPE_NEIGH_SOLICIT \<and> icmp6_get_opt pkt ICMP6_OPT_SRC_LLADDR = Some mac)
     \<or> (icmp6_type pkt = ICMP6_TYPE_NEIGH_ADVERT \<and> icmp6_get_opt pkt ICMP6_OPT_TARGET_LLADDR = Some mac)"
  shows "probe_lladdr pkt = Some mac"
  using assms
  by (auto simp: probe_lladdr_def ICMP6_TYPE_NEIGH_SOLICIT_def ICMP6_TYPE_NEIGH_ADVERT_def)

lemma probe_nexthop_cases:
  assumes "(ip6_nexthop_lookup cfg (if_vrf_id ifp) (if_id ifp) target st = Some nh \<and> st1 = st)
     \<or> (ip6_nexthop_lookup cfg (if_vrf_id ifp) (if_id ifp) target st = None
        \<and> (\<exists>st0. ip6_nexthop_new (if_vrf_id ifp) (if_id ifp) target st = Inr (nh, st0)
              \<and> ip6_route_insert (if_vrf_id ifp) (if_id ifp) target RTE_IPV6_MAX_DEPTH nh st0 = Inr st1))"
  shows "probe_nexthop cfg ifp target st = Inr (nh, st1)"
  using assms by (auto simp: probe_nexthop_def)

lemma probe_flush:
  assumes "probe_lladdr (mbufs st m) = Some mac"
    and "probe_nexthop cfg (md_iface (mbufs st m)) (nd_target (mbufs st m)) st = Inr (nh, st1)"
    and "\<not> nh_flag (flags (nhs st1 nh)) GR_NH_F_STATIC"
    and "held_chain (mbufs st1) (held_pkts_head (nhs st1 nh)) ps"
  shows "ndp_probe_input_cb cfg now m st =
     Some (rte_pktmbuf_free m
       ((fold (flush_step cfg nh) ps
           (st1\<lparr>nhs := (nhs st1)(nh := probe_refresh now (md_iface (mbufs st m)) mac (nhs st1 nh))\<rparr>))
        \<lparr>nhs := (nhs st1)(nh := (probe_refresh now (md_iface (mbufs st m)) mac (nhs st1 nh))
             \<lparr>held_pkts_head := None, held_pkts_tail := None, held_pkts_num := 0\<rparr>)\<rparr>))"
proof -
  let ?st2 = "st1\<lparr>nhs := (nhs st1)(nh := probe_refresh now (md_iface (mbufs st m)) mac (nhs st1 nh))\<rparr>"
  have head: "held_pkts_head (nhs ?st2 nh) = held_pkts_head (nhs st1 nh)"
    by (simp add: probe_refresh_def)
  have "held_chain (mbufs ?st2) (held_pkts_head (nhs ?st2 nh)) ps"
    using assms(4) by (simp only: head) simp
  then have fl: "flush_held cfg nh (held_pkts_head (nhs ?st2 nh)) ?st2 = Some (fold (flush_step cfg nh) ps ?st2)"
    by (rule flush_held_chain)
  show ?thesis
    using assms(1-3) fl
    by (simp add: ndp_probe_input_cb_def Let_def fold_flush_nhs)
qed

text \<open>
  Claim C1, amended. A probe (a solicit with a source link-layer address
  option or an advert with a target link-layer address option) whose nexthop
  \<open>nh\<close> is found by the lookup, or is created and has its internal /128
  route inserted, and is not \<open>STATIC\<close>: the callback returns; the nexthop has the advertised
  address, is \<open>REACHABLE\<close> and neither \<open>STALE\<close>, \<open>PENDING\<close> nor
  \<open>FAILED\<close>, its probe counters are zero and \<open>last_reply\<close> is the time of
  the call; the held packets \<open>ps\<close> are posted to the output node in the
  order they were queued, each with the nexthop attached; the hold queue is
  empty afterwards. The ring of the bridge has room for the held packets.
\<close>

theorem ndp_probe_input_cb_refresh:
  assumes pkt: "pkt = mbufs st m"
    and opt: "(icmp6_type pkt = ICMP6_TYPE_NEIGH_SOLICIT
                 \<and> icmp6_get_opt pkt ICMP6_OPT_SRC_LLADDR = Some mac)
            \<or> (icmp6_type pkt = ICMP6_TYPE_NEIGH_ADVERT
                 \<and> icmp6_get_opt pkt ICMP6_OPT_TARGET_LLADDR = Some mac)"
    and nh: "(ip6_nexthop_lookup cfg (if_vrf_id (md_iface pkt)) (if_id (md_iface pkt)) (nd_target pkt) st
                = Some nh \<and> str = st)
           \<or> (ip6_nexthop_lookup cfg (if_vrf_id (md_iface pkt)) (if_id (md_iface pkt)) (nd_target pkt) st
                = None
              \<and> (\<exists>stn. ip6_nexthop_new (if_vrf_id (md_iface pkt)) (if_id (md_iface pkt))
                          (nd_target pkt) st = Inr (nh, stn)
                    \<and> ip6_route_insert (if_vrf_id (md_iface pkt)) (if_id (md_iface pkt))
                          (nd_target pkt) RTE_IPV6_MAX_DEPTH nh stn = Inr str))"
    and dyn: "\<not> nh_flag (flags (nhs str nh)) GR_NH_F_STATIC"
    and queue: "held_queue str nh ps"
    and room: "length (ring str) + length ps \<le> RING_SIZE cfg"
  shows "\<exists>st'. ndp_probe_input_cb cfg now m st = Some st'
      \<and> lladdr (nhs st' nh) = mac
      \<and> nh_flag (flags (nhs st' nh)) GR_NH_F_REACHABLE
      \<and> \<not> nh_flag (flags (nhs st' nh)) GR_NH_F_STALE
      \<and> \<not> nh_flag (flags (nhs st' nh)) GR_NH_F_PENDING
      \<and> \<not> nh_flag (flags (nhs st' nh)) GR_NH_F_FAILED
      \<and> ucast_probes (nhs st' nh) = 0
      \<and> bcast_probes (nhs st' nh) = 0
      \<and> last_reply (nhs st' nh) = now
      \<and> ring st' = ring str @ map (Pair ip6_output_node) ps
      \<and> (\<forall>h \<in> set ps. out_nh (mbufs st' h) = Some nh)
      \<and> held_pkts_num (nhs st' nh) = 0
      \<and> held_pkts_head (nhs st' nh) = None
      \<and> held_pkts_tail (nhs st' nh) = None
      \<and> freed st' = freed str @ [m]"
proof -
  have l: "probe_lladdr (mbufs st m) = Some mac"
    using probe_lladdr_Some [OF opt] pkt by simp
  have n: "probe_nexthop cfg (md_iface (mbufs st m)) (nd_target (mbufs st m)) st = Inr (nh, str)"
    using probe_nexthop_cases [OF nh] pkt by simp
  have c: "held_chain (mbufs str) (held_pkts_head (nhs str nh)) ps"
    using queue by (simp add: held_queue_def)
  let ?st2 = "str\<lparr>nhs := (nhs str)(nh := probe_refresh now (md_iface (mbufs st m)) mac (nhs str nh))\<rparr>"
  have r: "length (ring ?st2) + length ps \<le> RING_SIZE cfg" using room by simp
  show ?thesis
    unfolding probe_flush [OF l n dyn c]
    by (simp add: rte_pktmbuf_free_def refresh_flags fold_flush_ring [OF r] fold_flush_out_nh
        fold_flush_other)
      (simp add: probe_refresh_def)
qed

lemma lookup_probe_state: "ip6_nexthop_lookup cfg_ex 0 1 peer_ip probe_state = Some 0"
  by (simp add: ip6_nexthop_lookup_def cfg_ex_def probe_state_def state_ex_def nh_matches_def
      nexthop_init_def upt_rec)

theorem ndp_probe_input_cb_refresh_witness:
  "\<exists>st'. ndp_probe_input_cb cfg_ex 7 0 probe_state = Some st'
     \<and> lladdr (nhs st' 0) = peer_mac
     \<and> nh_flag (flags (nhs st' 0)) GR_NH_F_REACHABLE
     \<and> \<not> nh_flag (flags (nhs st' 0)) GR_NH_F_PENDING
     \<and> last_reply (nhs st' 0) = 7
     \<and> ring st' = [(ip6_output_node, 1), (ip6_output_node, 2)]
     \<and> out_nh (mbufs st' 1) = Some 0 \<and> out_nh (mbufs st' 2) = Some 0
     \<and> held_pkts_num (nhs st' 0) = 0"
  using ndp_probe_input_cb_refresh [where pkt = "mbufs probe_state 0" and st = probe_state
      and str = probe_state and m = 0 and mac = peer_mac and cfg = cfg_ex and nh = 0
      and ps = "[1, 2]" and now = 7] lookup_probe_state
  by (simp add: probe_state_def state_ex_def cfg_ex_def mbuf_ex_def iface_ex_def icmp6_get_opt_def
      held_queue_def nh_flag_def GR_NH_F_PENDING_def GR_NH_F_STATIC_def nexthop_init_def) blast

lemma lookup_clash_state: "ip6_nexthop_lookup cfg_ex 0 1 peer_ip clash_state = None"
  by (simp add: ip6_nexthop_lookup_def cfg_ex_def clash_state_def state_ex_def nh_matches_def
      nexthop_init_def upt_rec GR_IFACE_ID_UNDEF_def)

lemma new_clash_state: "ip6_nexthop_new 0 1 peer_ip clash_state = Inr (1, clash_created)"
  using peer_ip_valid
  by (simp add: ip6_nexthop_new_def clash_created_def clash_state_def state_ex_def)

lemma insert_clash_created:
  "ip6_route_insert 0 1 peer_ip RTE_IPV6_MAX_DEPTH 1 clash_created = Inl EEXIST"
  by (simp add: ip6_route_insert_def clash_created_def clash_state_def state_ex_def route_exact_def
      RTE_IPV6_MAX_DEPTH_def prefix_match_def)

text \<open>
  Claim C1 as stated fails for a nexthop the callback has just created when
  the insertion of its /128 route fails: the callback jumps to \<^verbatim>\<open>free\<close>
  and the new nexthop, which is not \<open>STATIC\<close>, is left as allocated, with
  no address, not \<open>REACHABLE\<close>, \<open>last_reply\<close> unset. Here the route of
  \<open>fe80::2\<close> is in the table already.
\<close>

theorem ndp_probe_input_cb_route_counterexample:
  "icmp6_type (mbufs clash_state 0) = ICMP6_TYPE_NEIGH_ADVERT
   \<and> icmp6_get_opt (mbufs clash_state 0) ICMP6_OPT_TARGET_LLADDR = Some peer_mac
   \<and> ip6_nexthop_lookup cfg_ex 0 1 peer_ip clash_state = None
   \<and> ip6_nexthop_new 0 1 peer_ip clash_state = Inr (1, clash_created)
   \<and> \<not> nh_flag (flags (nhs clash_created 1)) GR_NH_F_STATIC
   \<and> ndp_probe_input_cb cfg_ex 7 0 clash_state = Some (clash_created\<lparr>freed := [0]\<rparr>)
   \<and> \<not> nh_flag (flags (nhs (clash_created\<lparr>freed := [0]\<rparr>) 1)) GR_NH_F_REACHABLE
   \<and> lladdr (nhs (clash_created\<lparr>freed := [0]\<rparr>) 1) \<noteq> peer_mac
   \<and> last_reply (nhs (clash_created\<lparr>freed := [0]\<rparr>) 1) \<noteq> 7"
proof -
  have f: "mbufs clash_state 0 = mbuf_ex\<lparr>icmp6_type := ICMP6_TYPE_NEIGH_ADVERT, nd_target := peer_ip,
                      nd_opts := [(ICMP6_OPT_TARGET_LLADDR, peer_mac)]\<rparr>"
    "nhs clash_created (Suc 0) = nexthop_init 0 1 peer_ip" "freed clash_created = []"
    by (simp_all add: clash_state_def clash_created_def state_ex_def)
  have l: "probe_lladdr (mbufs clash_state 0) = Some peer_mac"
    by (simp add: f probe_lladdr_def icmp6_get_opt_def ICMP6_TYPE_NEIGH_ADVERT_def
        ICMP6_TYPE_NEIGH_SOLICIT_def)
  have n: "probe_nexthop cfg_ex (md_iface (mbufs clash_state 0)) (nd_target (mbufs clash_state 0))
      clash_state = Inl clash_created"
    using lookup_clash_state new_clash_state insert_clash_created
    by (simp add: probe_nexthop_def f mbuf_ex_def iface_ex_def)
  have cb: "ndp_probe_input_cb cfg_ex 7 0 clash_state = Some (clash_created\<lparr>freed := [0]\<rparr>)"
    unfolding ndp_probe_input_cb_def Let_def l n
    by (simp add: rte_pktmbuf_free_def f)
  show ?thesis
    using lookup_clash_state new_clash_state cb
    by (simp add: f icmp6_get_opt_def nexthop_init_def nh_flag_def peer_mac_def)
qed

subsection \<open>\<^verbatim>\<open>ip6_nexthop_unreachable_cb\<close>: the hold queue\<close>

lemma held_chain_upd_other:
  "m \<notin> set ps \<Longrightarrow> held_chain (mb(m := x)) h ps = held_chain mb h ps"
  by (induction ps arbitrary: h) auto

lemma held_chain_append:
  "held_chain mb h ps \<Longrightarrow> distinct ps \<Longrightarrow> ps \<noteq> [] \<Longrightarrow> m \<notin> set ps \<Longrightarrow> q_next (mb m) = None \<Longrightarrow>
   held_chain (mb(last ps := (mb (last ps))\<lparr>q_next := Some m\<rparr>)) h (ps @ [m])"
proof (induction ps arbitrary: h)
  case Nil
  then show ?case by simp
next
  case (Cons p ps)
  show ?case
  proof (cases "ps = []")
    case True
    with Cons.prems show ?thesis by auto
  next
    case False
    let ?mb = "mb(last ps := (mb (last ps))\<lparr>q_next := Some m\<rparr>)"
    from False Cons.prems have ne: "p \<noteq> last ps" by auto
    then have nx: "q_next (?mb p) = q_next (mb p)" by simp
    from Cons.prems False have "held_chain ?mb (q_next (mb p)) (ps @ [m])"
      by (intro Cons.IH) auto
    with nx have "held_chain ?mb (q_next (?mb p)) (ps @ [m])" by (simp only:)
    moreover from Cons.prems have "h = Some p" by simp
    ultimately have "held_chain ?mb h (p # (ps @ [m]))"
      by (simp only: held_chain.simps simp_thms)
    moreover from False have "last (p # ps) = last ps" by simp
    ultimately show ?thesis by (simp only: append_Cons)
  qed
qed

lemma hold_enqueue_queue:
  assumes q: "held_queue st nh ps" and m: "m \<notin> set ps"
  shows "\<exists>st'. hold_enqueue m nh st = Inr st'
      \<and> held_queue st' nh (ps @ [m])
      \<and> (\<forall>p. p \<noteq> nh \<longrightarrow> nhs st' p = nhs st p)
      \<and> nhs st' nh = (nhs st nh)\<lparr>held_pkts_head := (if ps = [] then Some m else held_pkts_head (nhs st nh)),
            held_pkts_tail := Some m, held_pkts_num := held_pkts_num (nhs st nh) + 1\<rparr>
      \<and> ring st' = ring st \<and> freed st' = freed st \<and> routes st' = routes st
      \<and> free_list st' = free_list st"
proof (cases "ps = []")
  case True
  with q have "held_pkts_head (nhs st nh) = None" "held_pkts_num (nhs st nh) = 0"
    by (simp_all add: held_queue_def)
  with True show ?thesis
    by (simp add: hold_enqueue_def held_queue_def Let_def)
next
  case False
  then obtain p ps' where ps: "ps = p # ps'" by (cases ps) auto
  from q False have h: "held_pkts_head (nhs st nh) = Some p"
    and t: "held_pkts_tail (nhs st nh) = Some (last ps)"
    and c: "held_chain (mbufs st) (held_pkts_head (nhs st nh)) ps"
    and d: "distinct ps" and n: "held_pkts_num (nhs st nh) = length ps"
    by (simp_all add: held_queue_def ps)
  let ?mb = "(mbufs st)(m := (mbufs st m)\<lparr>q_next := None\<rparr>)"
  have c1: "held_chain ?mb (held_pkts_head (nhs st nh)) ps"
    using c m by (simp add: held_chain_upd_other)
  have "held_chain (?mb(last ps := (?mb (last ps))\<lparr>q_next := Some m\<rparr>))
          (held_pkts_head (nhs st nh)) (ps @ [m])"
    by (rule held_chain_append [OF c1 d False m]) simp
  then show ?thesis
    using h t d n m False
    by (simp add: hold_enqueue_def held_queue_def Let_def)
qed

lemma unreachable_hold_room:
  assumes unreach: "\<not> nh_flag (flags (nhs st nh)) GR_NH_F_REACHABLE"
    and queue: "held_queue st nh ps"
    and fresh: "m \<notin> set ps"
    and room: "held_pkts_num (nhs st nh) < NH_MAX_HELD_PKTS cfg"
  shows "\<exists>st'. unreachable_hold cfg m nh st = Inr st'
      \<and> held_queue st' nh (ps @ [m])
      \<and> held_pkts_num (nhs st' nh) = held_pkts_num (nhs st nh) + 1
      \<and> freed st' = freed st
      \<and> (nh_flag (flags (nhs st nh)) GR_NH_F_PENDING \<longrightarrow>
            flags (nhs st' nh) = flags (nhs st nh) \<and> ring st' = ring st)
      \<and> (\<not> nh_flag (flags (nhs st nh)) GR_NH_F_PENDING \<longrightarrow>
            flags (nhs st' nh) = flags (nhs st nh) OR GR_NH_F_PENDING
            \<and> ring st' = (if length (ring st) < RING_SIZE cfg
                           then ring st @ [(ndp_solicit, nh)] else ring st))"
proof -
  from hold_enqueue_queue [OF queue fresh] obtain st1 where
    e: "hold_enqueue m nh st = Inr st1" and q1: "held_queue st1 nh (ps @ [m])"
    and n1: "nhs st1 nh = (nhs st nh)\<lparr>held_pkts_head := (if ps = [] then Some m else held_pkts_head (nhs st nh)),
            held_pkts_tail := Some m, held_pkts_num := held_pkts_num (nhs st nh) + 1\<rparr>"
    and r1: "ring st1 = ring st" and f1: "freed st1 = freed st"
    by blast
  have fl: "flags (nhs st1 nh) = flags (nhs st nh)" by (simp add: n1)
  show ?thesis
  proof (cases "nh_flag (flags (nhs st nh)) GR_NH_F_PENDING")
    case True
    with unreach room e fl q1 n1 r1 f1 show ?thesis
      by (simp add: unreachable_hold_def)
  next
    case False
    let ?st2 = "snd (ip6_nexthop_solicit cfg (Some nh) st1)"
    let ?st3 = "?st2\<lparr>nhs := (nhs ?st2)(nh := (nhs ?st2 nh)\<lparr>flags := flags (nhs ?st2 nh) OR GR_NH_F_PENDING\<rparr>)\<rparr>"
    have r: "unreachable_hold cfg m nh st = Inr ?st3"
      using unreach room e fl False by (simp add: unreachable_hold_def Let_def)
    have s2: "nhs ?st2 = nhs st1" "mbufs ?st2 = mbufs st1" "freed ?st2 = freed st1"
      by (simp_all add: ip6_nexthop_solicit_def post_to_stack_def)
    have q3: "held_queue ?st3 nh (ps @ [m])"
      using q1 by (simp add: held_queue_def s2)
    have rg: "ring ?st3 = (if length (ring st) < RING_SIZE cfg
                           then ring st @ [(ndp_solicit, nh)] else ring st)"
      by (simp add: ip6_nexthop_solicit_def post_to_stack_def r1)
    show ?thesis
      unfolding r using False q3 rg
      by (simp add: s2 n1 f1)
  qed
qed

lemma unreachable_hold_full:
  assumes unreach: "\<not> nh_flag (flags (nhs st nh)) GR_NH_F_REACHABLE"
    and full: "\<not> held_pkts_num (nhs st nh) < NH_MAX_HELD_PKTS cfg"
  shows "unreachable_hold cfg m nh st = Inr (st\<lparr>freed := freed st @ [m]\<rparr>)"
  using assms by (simp add: unreachable_hold_def rte_pktmbuf_free_def)

lemma held_bound_new:
  "held_bound cfg st \<Longrightarrow> ip6_nexthop_new vrf ifid ip st = Inr (r, stn) \<Longrightarrow> held_bound cfg stn"
  by (auto simp: held_bound_def ip6_nexthop_new_def nexthop_init_def split: if_splits list.splits)

lemma held_bound_insert:
  "held_bound cfg st \<Longrightarrow> ip6_route_insert vrf ifid ip len nh st = Inr st2 \<Longrightarrow> held_bound cfg st2"
  by (auto simp: held_bound_def ip6_route_insert_def nexthop_incref_def split: option.splits)

lemma held_bound_remote:
  assumes "held_bound cfg st" and "unreachable_remote cfg m nh st = (r, st1)"
  shows "held_bound cfg st1"
proof (cases "ip6_nexthop_lookup cfg (vrf_id (nhs st nh)) (if_id (md_iface (mbufs st m)))
               (ip6_dst (mbufs st m)) st")
  case None
  show ?thesis
  proof (cases "ip6_nexthop_new (vrf_id (nhs st nh)) (iface_id (nhs st nh)) (ip6_dst (mbufs st m)) st")
    case (Inl e)
    with None assms show ?thesis by (simp add: unreachable_remote_def)
  next
    case (Inr x)
    obtain q stn where x: "x = (q, stn)" by (cases x)
    from held_bound_new [OF assms(1) Inr [unfolded x]] None Inr x assms(2) show ?thesis
      by (simp add: unreachable_remote_def)
  qed
next
  case (Some q)
  with assms show ?thesis
    by (auto simp: unreachable_remote_def held_bound_def split: if_splits)
qed

lemma held_bound_pivot:
  assumes "held_bound cfg st"
  shows "unreachable_pivot cfg m nh st = Pivot_Free st1 \<Longrightarrow> held_bound cfg st1"
    and "unreachable_pivot cfg m nh st = Pivot_Next r st1 \<Longrightarrow> held_bound cfg st1"
proof -
  obtain q sta where rem: "unreachable_remote cfg m nh st = (q, sta)"
    by (cases "unreachable_remote cfg m nh st")
  note b = held_bound_remote [OF assms rem]
  show "unreachable_pivot cfg m nh st = Pivot_Free st1 \<Longrightarrow> held_bound cfg st1"
    using b assms rem
    by (auto simp: unreachable_pivot_def Let_def split: if_splits option.splits sum.splits)
  show "unreachable_pivot cfg m nh st = Pivot_Next r st1 \<Longrightarrow> held_bound cfg st1"
    using b assms rem
    by (auto simp: unreachable_pivot_def Let_def split: if_splits option.splits sum.splits
        dest: held_bound_insert)
qed

lemma held_bound_hold:
  assumes "held_bound cfg st" and "unreachable_hold cfg m nh st = Inr st'"
  shows "held_bound cfg st'"
proof (cases "nh_flag (flags (nhs st nh)) GR_NH_F_REACHABLE")
  case True
  with assms show ?thesis
    by (auto simp: unreachable_hold_def held_bound_def post_to_stack_def rte_pktmbuf_free_def
        Let_def split: if_splits)
next
  case False
  show ?thesis
  proof (cases "held_pkts_num (nhs st nh) < NH_MAX_HELD_PKTS cfg")
    case full: False
    with False assms show ?thesis
      by (auto simp: unreachable_hold_def held_bound_def rte_pktmbuf_free_def)
  next
    case room: True
    from False room assms(2) obtain st1 where e: "hold_enqueue m nh st = Inr st1"
      by (auto simp: unreachable_hold_def split: sum.splits)
    then have n: "\<forall>p. held_pkts_num (nhs st1 p) =
        (if p = nh then held_pkts_num (nhs st nh) + 1 else held_pkts_num (nhs st p))"
      by (auto simp: hold_enqueue_def Let_def split: option.splits)
    with room assms(1) have b1: "held_bound cfg st1"
      by (auto simp: held_bound_def)
    from False room e assms(2) show ?thesis
      using b1
      by (auto simp: unreachable_hold_def held_bound_def ip6_nexthop_solicit_def post_to_stack_def
          Let_def split: if_splits)
  qed
qed

lemma held_bound_unreachable_cb:
  assumes "held_bound cfg st" and "ip6_nexthop_unreachable_cb cfg m st = Inr st'"
  shows "held_bound cfg st'"
proof (cases "ip6_route_lookup (if_vrf_id (md_iface (mbufs st m))) (if_id (md_iface (mbufs st m)))
             (ip6_dst (mbufs st m)) st")
  case None
  with assms show ?thesis
    by (auto simp: ip6_nexthop_unreachable_cb_def held_bound_def rte_pktmbuf_free_def)
next
  case (Some nh)
  show ?thesis
  proof (cases "unreachable_pivot cfg m nh st")
    case Pivot_Abort
    with Some assms show ?thesis by (simp add: ip6_nexthop_unreachable_cb_def)
  next
    case (Pivot_Free st1)
    from held_bound_pivot(1) [OF assms(1) Pivot_Free] Some Pivot_Free assms(2) show ?thesis
      by (auto simp: ip6_nexthop_unreachable_cb_def held_bound_def rte_pktmbuf_free_def)
  next
    case (Pivot_Next r st1)
    from held_bound_pivot(2) [OF assms(1) Pivot_Next] Some Pivot_Next assms(2) show ?thesis
      by (auto simp: ip6_nexthop_unreachable_cb_def dest: held_bound_hold)
  qed
qed

text \<open>
  The hold queue in the unreachable callback, with the nexthop \<open>nh\<close> it
  goes on with after the pivot (state \<open>stp\<close>) not \<open>REACHABLE\<close>, its hold
  queue being \<open>ps\<close> and the packet not in it already. When
  \<open>held_pkts_num < NH_MAX_HELD_PKTS\<close>: the packet goes to the tail of the
  queue, the counter grows by one and stays within \<open>NH_MAX_HELD_PKTS\<close>;
  when \<open>PENDING\<close> was set, the flags and the ring are as before (no
  solicit); when it was not, \<open>PENDING\<close> is set, and the solicit for the
  nexthop is last in the ring when the ring had room, while a full ring is as
  before. When the queue is full: the packet is freed and nothing else
  changes. Whatever the packet and the state, the callback keeps
  \<open>held_pkts_num \<le> NH_MAX_HELD_PKTS\<close> on every nexthop.
\<close>

lemma ip6_nexthop_unreachable_cb_hold:
  assumes route: "ip6_route_lookup (if_vrf_id (md_iface (mbufs st m))) (if_id (md_iface (mbufs st m)))
                    (ip6_dst (mbufs st m)) st = Some nhr"
    and pivot: "unreachable_pivot cfg m nhr st = Pivot_Next nh stp"
    and unreach: "\<not> nh_flag (flags (nhs stp nh)) GR_NH_F_REACHABLE"
    and queue: "held_queue stp nh ps"
    and fresh: "m \<notin> set ps"
  shows "(held_pkts_num (nhs stp nh) < NH_MAX_HELD_PKTS cfg \<longrightarrow>
          (\<exists>st'. ip6_nexthop_unreachable_cb cfg m st = Inr st'
             \<and> held_queue st' nh (ps @ [m])
             \<and> held_pkts_num (nhs st' nh) = held_pkts_num (nhs stp nh) + 1
             \<and> held_pkts_num (nhs st' nh) \<le> NH_MAX_HELD_PKTS cfg
             \<and> freed st' = freed stp
             \<and> (nh_flag (flags (nhs stp nh)) GR_NH_F_PENDING \<longrightarrow>
                   flags (nhs st' nh) = flags (nhs stp nh) \<and> ring st' = ring stp)
             \<and> (\<not> nh_flag (flags (nhs stp nh)) GR_NH_F_PENDING \<longrightarrow>
                   flags (nhs st' nh) = flags (nhs stp nh) OR GR_NH_F_PENDING
                   \<and> ring st' = (if length (ring stp) < RING_SIZE cfg
                                  then ring stp @ [(ndp_solicit, nh)] else ring stp))))
       \<and> (\<not> held_pkts_num (nhs stp nh) < NH_MAX_HELD_PKTS cfg \<longrightarrow>
            ip6_nexthop_unreachable_cb cfg m st = Inr (stp\<lparr>freed := freed stp @ [m]\<rparr>))
       \<and> (held_bound cfg st \<longrightarrow>
            (\<forall>st'. ip6_nexthop_unreachable_cb cfg m st = Inr st' \<longrightarrow> held_bound cfg st'))"
proof -
  have cb: "ip6_nexthop_unreachable_cb cfg m st = unreachable_hold cfg m nh stp"
    using route pivot by (simp add: ip6_nexthop_unreachable_cb_def)
  show ?thesis
  proof (intro conjI impI)
    assume room: "held_pkts_num (nhs stp nh) < NH_MAX_HELD_PKTS cfg"
    from unreachable_hold_room [OF unreach queue fresh room] obtain st' where
      *: "unreachable_hold cfg m nh stp = Inr st'"
        "held_queue st' nh (ps @ [m])"
        "held_pkts_num (nhs st' nh) = held_pkts_num (nhs stp nh) + 1"
        "freed st' = freed stp"
        "nh_flag (flags (nhs stp nh)) GR_NH_F_PENDING \<longrightarrow>
            flags (nhs st' nh) = flags (nhs stp nh) \<and> ring st' = ring stp"
        "\<not> nh_flag (flags (nhs stp nh)) GR_NH_F_PENDING \<longrightarrow>
            flags (nhs st' nh) = flags (nhs stp nh) OR GR_NH_F_PENDING
            \<and> ring st' = (if length (ring stp) < RING_SIZE cfg
                           then ring stp @ [(ndp_solicit, nh)] else ring stp)"
      by blast
    from *(3) room have "held_pkts_num (nhs st' nh) \<le> NH_MAX_HELD_PKTS cfg" by simp
    with * cb show "\<exists>st'. ip6_nexthop_unreachable_cb cfg m st = Inr st'
             \<and> held_queue st' nh (ps @ [m])
             \<and> held_pkts_num (nhs st' nh) = held_pkts_num (nhs stp nh) + 1
             \<and> held_pkts_num (nhs st' nh) \<le> NH_MAX_HELD_PKTS cfg
             \<and> freed st' = freed stp
             \<and> (nh_flag (flags (nhs stp nh)) GR_NH_F_PENDING \<longrightarrow>
                   flags (nhs st' nh) = flags (nhs stp nh) \<and> ring st' = ring stp)
             \<and> (\<not> nh_flag (flags (nhs stp nh)) GR_NH_F_PENDING \<longrightarrow>
                   flags (nhs st' nh) = flags (nhs stp nh) OR GR_NH_F_PENDING
                   \<and> ring st' = (if length (ring stp) < RING_SIZE cfg
                                  then ring stp @ [(ndp_solicit, nh)] else ring stp))"
      by (intro exI [of _ st']) simp
  next
    assume "\<not> held_pkts_num (nhs stp nh) < NH_MAX_HELD_PKTS cfg"
    from unreachable_hold_full [OF unreach this] cb
    show "ip6_nexthop_unreachable_cb cfg m st = Inr (stp\<lparr>freed := freed stp @ [m]\<rparr>)" by simp
  next
    assume "held_bound cfg st"
    then show "\<forall>st'. ip6_nexthop_unreachable_cb cfg m st = Inr st' \<longrightarrow> held_bound cfg st'"
      using held_bound_unreachable_cb by blast
  qed
qed

subsection \<open>\<^verbatim>\<open>ip6_nexthop_unreachable_cb\<close>: the pivot to the host nexthop\<close>

lemma ip6_nexthop_lookup_Some:
  "ip6_nexthop_lookup cfg vrf ifid ip st = Some r \<Longrightarrow> nh_matches vrf ifid ip (nhs st r)"
  by (auto simp: ip6_nexthop_lookup_def find_Some_iff)

lemma ip6_route_insert_Inr:
  "ip6_route_insert vrf ifid ip len nh st = Inr st2 \<Longrightarrow>
   routes st2 = \<lparr>r_vrf = vrf, r_ip = ip, r_len = len, r_nh = nh\<rparr> # routes st
   \<and> nhs st2 = (nhs st)(nh := (nhs st nh)\<lparr>ref_count := ref_count (nhs st nh) + 1\<rparr>)
   \<and> mbufs st2 = mbufs st \<and> ring st2 = ring st \<and> freed st2 = freed st
   \<and> free_list st2 = free_list st"
  by (auto simp: ip6_route_insert_def nexthop_incref_def split: option.splits)


lemma pivot_gateway:
  assumes route: "ip6_route_lookup (if_vrf_id (md_iface (mbufs st m))) (if_id (md_iface (mbufs st m)))
                    (ip6_dst (mbufs st m)) st = Some nhr"
    and link: "nh_flag (flags (nhs st nhr)) GR_NH_F_LINK"
    and differs: "ipv6 (nhs st nhr) \<noteq> ip6_dst (mbufs st m)"
    and dst: "dst = ip6_dst (mbufs st m)"
    and lnk: "lnk = nhs st nhr"
    and some: "ip6_nexthop_lookup cfg (vrf_id lnk) (if_id (md_iface (mbufs st m))) dst st = Some r"
    and gw: "nh_flag (flags (nhs st r)) GR_NH_F_GATEWAY" "iface_id (nhs st r) = 0"
    and stn: "stn = st\<lparr>nhs := (nhs st)(r := (nhs st r)\<lparr>iface_id := iface_id lnk\<rparr>)\<rparr>"
    and ins: "ip6_route_insert (vrf_id lnk) (iface_id lnk) dst RTE_IPV6_MAX_DEPTH r stn = Inr st2"
  shows "iface_id (nhs st2 r) = iface_id lnk
      \<and> routes st2 = \<lparr>r_vrf = vrf_id lnk, r_ip = dst, r_len = 128, r_nh = r\<rparr> # routes st
      \<and> ip6_nexthop_unreachable_cb cfg m st = unreachable_hold cfg m r st2"
proof -
  from ip6_nexthop_lookup_Some [OF some] differs have rn: "r \<noteq> nhr"
    by (auto simp: nh_matches_def dst)
  have rem: "unreachable_remote cfg m nhr st = (Some r, stn)"
    using some gw stn by (simp add: unreachable_remote_def dst [symmetric] lnk [symmetric])
  have piv: "unreachable_pivot cfg m nhr st = Pivot_Next r st2"
    using link differs rem ins rn
    by (simp add: unreachable_pivot_def rte_ipv6_addr_eq_def dst [symmetric] lnk [symmetric] stn)
  show ?thesis
    using ip6_route_insert_Inr [OF ins] route piv
    by (simp add: ip6_nexthop_unreachable_cb_def RTE_IPV6_MAX_DEPTH_def stn)
qed










lemma link_nexthop:
  "nhs link_state 0 = (nexthop_init 0 1 link_ip)\<lparr>flags := GR_NH_F_LINK OR GR_NH_F_REACHABLE, ref_count := 1\<rparr>"
  "nhs found_state 0 = nhs link_state 0" "nhs other_if_state 0 = nhs link_state 0"
  "nhs gateway_state 0 = nhs link_state 0" "nhs pool_full_state 0 = nhs link_state 0"
  "routes link_state = [\<lparr>r_vrf = 0, r_ip = link_ip, r_len = 64, r_nh = 0\<rparr>]"
  "routes found_state = routes link_state @ [via_route]"
  "routes other_if_state = routes link_state @ [via_route]"
  "routes gateway_state = routes link_state @ [via_route]"
  "free_list link_state = [1, 2, 3]" "free_list found_state = [2, 3]"
  "free_list other_if_state = [2, 3]" "free_list gateway_state = [2, 3]"
  "free_list pool_full_state = []"
  "mbufs link_state 0 = mbuf_ex\<lparr>ip6_dst := host_ip\<rparr>"
  "mbufs found_state 0 = mbuf_ex\<lparr>ip6_dst := host_ip\<rparr>"
  "mbufs other_if_state 0 = mbuf_ex\<lparr>ip6_dst := host_ip, md_iface := \<lparr>if_id = 2, if_vrf_id = 0\<rparr>\<rparr>"
  "mbufs gateway_state 0 = mbuf_ex\<lparr>ip6_dst := host_ip\<rparr>"
  "mbufs pool_full_state 0 = mbuf_ex\<lparr>ip6_dst := host_ip\<rparr>"
  "nhs found_state (Suc 0) = (nexthop_init 0 1 host_ip)\<lparr>ref_count := 1\<rparr>"
  "nhs other_if_state (Suc 0) = (nexthop_init 0 2 host_ip)\<lparr>ref_count := 1\<rparr>"
  "nhs gateway_state (Suc 0) = (nexthop_init 0 0 host_ip)\<lparr>flags := GR_NH_F_GATEWAY, ref_count := 1\<rparr>"
  by (simp_all add: link_state_def gateway_state_def found_state_def other_if_state_def
      pool_full_state_def state_ex_def)

lemma link_flag: "nh_flag (flags (nhs link_state 0)) GR_NH_F_LINK"
  by (simp add: link_state_def nh_flag_def GR_NH_F_LINK_def GR_NH_F_REACHABLE_def)

lemma ip_differ: "link_ip \<noteq> host_ip"
  by (simp add: link_ip_def host_ip_def)

lemma link_routes:
  "ip6_route_lookup 0 1 host_ip found_state = Some 0"
  "ip6_route_lookup 0 2 host_ip other_if_state = Some 0"
  "ip6_route_lookup 0 1 host_ip gateway_state = Some 0"
  "ip6_route_lookup 0 1 host_ip pool_full_state = Some 0"
  by (simp_all add: ip6_route_lookup_def link_nexthop pool_full_state_def via_route_def
      prefix_match_def link_ip_def host_ip_def via_ip_def)

lemma link_lookups:
  "ip6_nexthop_lookup cfg_ex 0 1 host_ip found_state = Some 1"
  "ip6_nexthop_lookup cfg_ex 0 2 host_ip other_if_state = Some 1"
  "ip6_nexthop_lookup cfg_ex 0 1 host_ip gateway_state = None"
  "ip6_nexthop_lookup cfg_ex 0 1 host_ip pool_full_state = None"
  by (simp_all add: ip6_nexthop_lookup_def cfg_ex_def gateway_state_def found_state_def
      other_if_state_def pool_full_state_def link_state_def state_ex_def nh_matches_def
      nexthop_init_def upt_rec link_ip_def host_ip_def GR_IFACE_ID_UNDEF_def)

lemma link_no_gateway:
  "\<not> unbound_gateway cfg_ex 0 host_ip link_state"
  "\<not> unbound_gateway cfg_ex 0 host_ip found_state"
  "\<not> unbound_gateway cfg_ex 0 host_ip other_if_state"
  "\<not> unbound_gateway cfg_ex 0 host_ip pool_full_state"
  "unbound_gateway cfg_ex 0 host_ip gateway_state"
  by (simp_all add: unbound_gateway_def cfg_ex_def gateway_state_def found_state_def
      other_if_state_def pool_full_state_def link_state_def state_ex_def nh_matches_def
      nexthop_init_def upt_rec link_ip_def host_ip_def GR_IFACE_ID_UNDEF_def nh_flag_def
      GR_NH_F_GATEWAY_def GR_NH_F_LINK_def GR_NH_F_REACHABLE_def)



text \<open>
  The branch of lines 63 to 67 binds a gateway entry with no interface to
  the interface of the link route when the lookup of line 56 returns such an
  entry (lemma \<open>pivot_gateway\<close>). That lookup is made with the interface of
  the packet: with the index of the pool keyed by the interface, it returns
  an entry with no interface only when asked with \<open>GR_IFACE_ID_UNDEF\<close>. For
  a packet received on interface 1 the gateway entry of \<open>gateway_state\<close>
  (slot 1) is not found: it keeps no interface, and a second entry for the
  address is created in slot 2.
\<close>

lemma unreachable_cb_unbound_gateway:
  "unbound_gateway cfg_ex 0 host_ip gateway_state
   \<and> ip6_nexthop_lookup cfg_ex 0 1 host_ip gateway_state = None
   \<and> (\<exists>st'. ip6_nexthop_unreachable_cb cfg_ex 0 gateway_state = Inr st'
         \<and> iface_id (nhs st' 1) = 0
         \<and> ipv6 (nhs st' 2) = host_ip \<and> iface_id (nhs st' 2) = 1
         \<and> free_list st' = [3])"
proof -
  note f = link_nexthop mbuf_ex_def iface_ex_def nexthop_init_def
  have fl: "nh_flag (flags (nhs gateway_state 0)) GR_NH_F_LINK" using link_flag by (simp add: f)
  have "\<exists>st'. ip6_nexthop_unreachable_cb cfg_ex 0 gateway_state = Inr st'
         \<and> iface_id (nhs st' 1) = 0
         \<and> ipv6 (nhs st' 2) = host_ip \<and> iface_id (nhs st' 2) = 1
         \<and> free_list st' = [3]"
    using link_routes(3) link_lookups(3) link_flag ip_differ
    by (simp add: ip6_nexthop_unreachable_cb_def unreachable_pivot_def unreachable_remote_def
        unreachable_hold_def hold_enqueue_def ip6_nexthop_solicit_def post_to_stack_def
        ip6_nexthop_new_def ip6_route_insert_def nexthop_incref_def route_exact_def
        prefix_match_def RTE_IPV6_MAX_DEPTH_def via_route_def via_ip_def
        rte_ipv6_addr_eq_def rte_ipv6_addr_is_unspec_def rte_ipv6_addr_is_mcast_def
        Let_def f host_ip_def link_ip_def cfg_ex_def nh_flag_def
        GR_NH_F_REACHABLE_def GR_NH_F_PENDING_def GR_NH_F_LINK_def)
  with link_no_gateway(5) link_lookups(3) show ?thesis by simp
qed

lemma route_hold_state: "ip6_route_lookup 0 1 peer_ip hold_state = Some 0"
  by (simp add: ip6_route_lookup_def hold_state_def probe_state_def state_ex_def prefix_match_def)

lemma route_fresh_state: "ip6_route_lookup 0 1 peer_ip fresh_state = Some 0"
  by (simp add: ip6_route_lookup_def fresh_state_def state_ex_def prefix_match_def)

lemma ip6_nexthop_unreachable_cb_hold_ex:
  "ip6_nexthop_unreachable_cb cfg_ex 3 hold_state = Inr (hold_state\<lparr>freed := [3]\<rparr>)
   \<and> (\<exists>st'. ip6_nexthop_unreachable_cb cfg_ex 3 fresh_state = Inr st'
         \<and> held_queue st' 0 [3]
         \<and> held_pkts_num (nhs st' 0) = 1
         \<and> flags (nhs st' 0) = GR_NH_F_PENDING
         \<and> ring st' = [(ndp_solicit, 0)])"
proof
  have p: "unreachable_pivot cfg_ex 3 0 hold_state = Pivot_Next 0 hold_state"
    by (simp add: unreachable_pivot_def hold_state_def probe_state_def state_ex_def nh_flag_def
        nexthop_init_def GR_NH_F_PENDING_def GR_NH_F_LINK_def)
  show "ip6_nexthop_unreachable_cb cfg_ex 3 hold_state = Inr (hold_state\<lparr>freed := [3]\<rparr>)"
    using ip6_nexthop_unreachable_cb_hold [where st = hold_state and m = 3 and nhr = 0
        and cfg = cfg_ex and nh = 0 and stp = hold_state and ps = "[1, 2]", OF _ p]
      route_hold_state
    by (simp add: hold_state_def probe_state_def state_ex_def cfg_ex_def mbuf_ex_def iface_ex_def
        held_queue_def nh_flag_def nexthop_init_def GR_NH_F_PENDING_def GR_NH_F_REACHABLE_def)
next
  have p: "unreachable_pivot cfg_ex 3 0 fresh_state = Pivot_Next 0 fresh_state"
    by (simp add: unreachable_pivot_def fresh_state_def state_ex_def nh_flag_def
        nexthop_init_def GR_NH_F_LINK_def)
  show "\<exists>st'. ip6_nexthop_unreachable_cb cfg_ex 3 fresh_state = Inr st'
         \<and> held_queue st' 0 [3]
         \<and> held_pkts_num (nhs st' 0) = 1
         \<and> flags (nhs st' 0) = GR_NH_F_PENDING
         \<and> ring st' = [(ndp_solicit, 0)]"
    using ip6_nexthop_unreachable_cb_hold [where st = fresh_state and m = 3 and nhr = 0
        and cfg = cfg_ex and nh = 0 and stp = fresh_state and ps = "[]", OF _ p]
      route_fresh_state
    by (simp add: fresh_state_def state_ex_def cfg_ex_def mbuf_ex_def iface_ex_def
        held_queue_def nh_flag_def nexthop_init_def GR_NH_F_PENDING_def GR_NH_F_REACHABLE_def)
      blast
qed


subsection \<open>\<^verbatim>\<open>nh6_del\<close> and \<^verbatim>\<open>nh6_add\<close>\<close>

lemma nh_flag_or3:
  "nh_flag fl (a OR b OR c) = (nh_flag fl a \<or> nh_flag fl b \<or> nh_flag fl c)"
  by (auto simp: nh_flag_def bit.conj_disj_distrib or_eq_0_iff)

text \<open>
  Claim C8, amended. \<^verbatim>\<open>NH_DEL\<close> with a valid vrf that names an existing
  nexthop \<open>nh\<close> (the lookup on any interface finds it) returns \<open>EBUSY\<close> if
  and only if the nexthop has one of the flags \<open>LOCAL\<close>, \<open>LINK\<close>,
  \<open>GATEWAY\<close> or \<open>ref_count > 1\<close>, and then the state (the nexthop and the
  routes) is as before. Otherwise, when the table holds the /128 route of the
  host, that route is deleted, which drops its reference on its nexthop, and
  the reply is \<open>OK\<close>; when the table does not hold it, the reply is the
  error of the route table (\<open>ENOENT\<close>) and the state is as before.
\<close>

theorem nh6_del_busy:
  assumes vrf: "unat (del_vrf_id req) < MAX_VRFS cfg"
    and found: "ip6_nexthop_lookup cfg (del_vrf_id req) GR_IFACE_ID_UNDEF (del_host req) st = Some nh"
    and busy: "busy = (nh_flag (flags (nhs st nh)) GR_NH_F_LOCAL
                     \<or> nh_flag (flags (nhs st nh)) GR_NH_F_LINK
                     \<or> nh_flag (flags (nhs st nh)) GR_NH_F_GATEWAY
                     \<or> 1 < ref_count (nhs st nh))"
  shows "(fst (nh6_del cfg req st) = ERR EBUSY \<longleftrightarrow> busy)
       \<and> (busy \<longrightarrow> snd (nh6_del cfg req st) = st)
       \<and> (\<not> busy \<longrightarrow>
            (\<forall>r. find (route_exact (del_vrf_id req) (del_host req) 128) (routes st) = Some r \<longrightarrow>
               nh6_del cfg req st =
                 (OK, nexthop_decref (r_nh r) (st\<lparr>routes := remove1 r (routes st)\<rparr>)))
          \<and> (find (route_exact (del_vrf_id req) (del_host req) 128) (routes st) = None \<longrightarrow>
               nh6_del cfg req st = (ERR ENOENT, st)))"
  using vrf found
  by (auto simp: nh6_del_def busy nh_flag_or3 ip6_route_delete_def RTE_IPV6_MAX_DEPTH_def
      split: option.splits)

lemma find_unique:
  "p \<in> set xs \<Longrightarrow> P p \<Longrightarrow> (\<forall>q \<in> set xs. q \<noteq> p \<longrightarrow> \<not> P q) \<Longrightarrow> find P xs = Some p"
proof (induction xs)
  case Nil
  then show ?case by simp
next
  case (Cons a xs)
  show ?case
  proof (cases "P a")
    case True
    with Cons.prems(3) have "a = p" by fastforce
    with True show ?thesis by simp
  next
    case False
    with Cons.prems have a: "p \<in> set xs" by auto
    from Cons.prems(3) have b: "\<forall>q \<in> set xs. q \<noteq> p \<longrightarrow> \<not> P q" by simp
    have "find P xs = Some p" by (rule Cons.IH [OF a Cons.prems(2) b])
    with False show ?thesis by simp
  qed
qed

lemma find_None_iff': "find P xs = None \<longleftrightarrow> (\<forall>x \<in> set xs. \<not> P x)"
  by (induction xs) auto

lemma nh6_add_created_lookup:
  assumes none: "ip6_nexthop_lookup cfg vrf ifid ip st = None"
    and p: "p < IP6_MAX_NEXT_HOPS cfg"
    and m: "nh_matches vrf ifid ip (nhs st1 p)"
    and others: "\<forall>q. q \<noteq> p \<longrightarrow> nhs st1 q = nhs st q"
  shows "ip6_nexthop_lookup cfg vrf ifid ip st1 = Some p"
proof -
  from none have n: "\<not> nh_matches vrf ifid ip (nhs st q)" if "q < IP6_MAX_NEXT_HOPS cfg" for q
    using that by (simp add: ip6_nexthop_lookup_def find_None_iff')
  have u: "q = p" if "q < IP6_MAX_NEXT_HOPS cfg" and "nh_matches vrf ifid ip (nhs st1 q)" for q
  proof (rule ccontr)
    assume "q \<noteq> p"
    with others have "nhs st1 q = nhs st q" by simp
    with that n [of q] show False by simp
  qed
  show ?thesis
    unfolding ip6_nexthop_lookup_def
  proof (rule find_unique)
    show "p \<in> set [0 ..< IP6_MAX_NEXT_HOPS cfg]" using p by simp
    show "nh_matches vrf ifid ip (nhs st1 p)" by (rule m)
    show "\<forall>q \<in> set [0 ..< IP6_MAX_NEXT_HOPS cfg]. q \<noteq> p \<longrightarrow> \<not> nh_matches vrf ifid ip (nhs st1 q)"
      using u by auto
  qed
qed

lemma nh6_add_OK_pre:
  assumes "nh6_add cfg req st = (OK, st1)"
  shows "\<not> (rte_ipv6_addr_is_unspec (add_ipv6 req) \<or> rte_ipv6_addr_is_mcast (add_ipv6 req))"
    and "\<not> MAX_VRFS cfg \<le> unat (add_vrf_id req)"
    and "\<exists>ifp. iface_from_id (add_iface_id req) st = Inr ifp"
proof -
  show a: "\<not> (rte_ipv6_addr_is_unspec (add_ipv6 req) \<or> rte_ipv6_addr_is_mcast (add_ipv6 req))"
  proof
    assume "rte_ipv6_addr_is_unspec (add_ipv6 req) \<or> rte_ipv6_addr_is_mcast (add_ipv6 req)"
    then have "nh6_add cfg req st = (ERR EINVAL, st)" by (simp add: nh6_add_def)
    with assms show False by simp
  qed
  show b: "\<not> MAX_VRFS cfg \<le> unat (add_vrf_id req)"
  proof
    assume "MAX_VRFS cfg \<le> unat (add_vrf_id req)"
    with a have "nh6_add cfg req st = (ERR EOVERFLOW, st)" by (simp add: nh6_add_def)
    with assms show False by simp
  qed
  show "\<exists>ifp. iface_from_id (add_iface_id req) st = Inr ifp"
  proof (cases "iface_from_id (add_iface_id req) st")
    case (Inl e)
    with assms a b show ?thesis by (simp add: nh6_add_def)
  next
    case (Inr ifp)
    then show ?thesis by simp
  qed
qed

lemma nh6_add_valid:
  assumes "\<not> (rte_ipv6_addr_is_unspec (add_ipv6 req) \<or> rte_ipv6_addr_is_mcast (add_ipv6 req))"
    and "\<not> MAX_VRFS cfg \<le> unat (add_vrf_id req)"
    and "iface_from_id (add_iface_id req) st = Inr ifp"
  shows "nh6_add cfg req st =
    (case ip6_nexthop_lookup cfg (add_vrf_id req) (add_iface_id req) (add_ipv6 req) st of
       Some nh \<Rightarrow>
         if exist_ok req \<and> add_iface_id req = iface_id (nhs st nh)
            \<and> add_mac req = lladdr (nhs st nh)
         then (OK, st) else (ERR EEXIST, st)
     | None \<Rightarrow>
         (case ip6_nexthop_new (add_vrf_id req) (add_iface_id req) (add_ipv6 req) st of
            Inl e \<Rightarrow> (ERR e, st)
          | Inr (nh, stn) \<Rightarrow>
              (case ip6_route_insert (add_vrf_id req) (add_iface_id req) (add_ipv6 req) 128 nh
                      (stn\<lparr>nhs := (nhs stn)(nh := (nhs stn nh)
                          \<lparr>lladdr := add_mac req, flags := GR_NH_F_STATIC OR GR_NH_F_REACHABLE\<rparr>)\<rparr>) of
                 Inl e \<Rightarrow> (ERR e, stn\<lparr>nhs := (nhs stn)(nh := (nhs stn nh)
                          \<lparr>lladdr := add_mac req, flags := GR_NH_F_STATIC OR GR_NH_F_REACHABLE\<rparr>)\<rparr>)
               | Inr st3 \<Rightarrow> (OK, st3))))"
proof (cases "ip6_nexthop_lookup cfg (add_vrf_id req) (add_iface_id req) (add_ipv6 req) st")
  case (Some nh)
  with assms show ?thesis by (simp add: nh6_add_def rte_is_same_ether_addr_def)
next
  case None
  show ?thesis
  proof (cases "ip6_nexthop_new (add_vrf_id req) (add_iface_id req) (add_ipv6 req) st")
    case (Inl e)
    with None assms show ?thesis by (simp add: nh6_add_def)
  next
    case (Inr r)
    obtain nh stn where r: "r = (nh, stn)" by (cases r)
    from Inr r have "nhs stn nh = nexthop_init (add_vrf_id req) (add_iface_id req) (add_ipv6 req)"
      by (auto simp: ip6_nexthop_new_def split: if_splits list.splits)
    with None Inr r assms show ?thesis
      by (simp add: nh6_add_def Let_def nexthop_init_def RTE_IPV6_MAX_DEPTH_def)
  qed
qed

lemma nh6_add_OK_cases:
  assumes ok: "nh6_add cfg req st = (OK, st1)"
    and pool: "\<forall>p \<in> set (free_list st). p < IP6_MAX_NEXT_HOPS cfg"
  shows "\<exists>nh. ip6_nexthop_lookup cfg (add_vrf_id req) (add_iface_id req) (add_ipv6 req) st1 = Some nh
      \<and> iface_id (nhs st1 nh) = add_iface_id req \<and> lladdr (nhs st1 nh) = add_mac req
      \<and> iface_from_id (add_iface_id req) st1 = iface_from_id (add_iface_id req) st"
proof -
  from nh6_add_OK_pre [OF ok] obtain ifp where
    pre: "\<not> (rte_ipv6_addr_is_unspec (add_ipv6 req) \<or> rte_ipv6_addr_is_mcast (add_ipv6 req))"
      "\<not> MAX_VRFS cfg \<le> unat (add_vrf_id req)" "iface_from_id (add_iface_id req) st = Inr ifp"
    by blast
  note eq = nh6_add_valid [OF pre]
  show ?thesis
  proof (cases "ip6_nexthop_lookup cfg (add_vrf_id req) (add_iface_id req) (add_ipv6 req) st")
    case (Some nh)
    with ok eq have "st1 = st" "add_iface_id req = iface_id (nhs st nh)" "add_mac req = lladdr (nhs st nh)"
      by (simp_all split: if_splits)
    with Some show ?thesis by simp
  next
    case None
    with ok eq obtain p stn where
      new: "ip6_nexthop_new (add_vrf_id req) (add_iface_id req) (add_ipv6 req) st = Inr (p, stn)"
      and ins: "ip6_route_insert (add_vrf_id req) (add_iface_id req) (add_ipv6 req) 128 p
                      (stn\<lparr>nhs := (nhs stn)(p := (nhs stn p)
                          \<lparr>lladdr := add_mac req, flags := GR_NH_F_STATIC OR GR_NH_F_REACHABLE\<rparr>)\<rparr>)
                 = Inr st1"
      by (simp split: sum.splits prod.splits)
    from new have stn: "stn = st\<lparr>free_list := tl (free_list st),
          nhs := (nhs st)(p := nexthop_init (add_vrf_id req) (add_iface_id req) (add_ipv6 req))\<rparr>"
      and hd: "p \<in> set (free_list st)"
      by (auto simp: ip6_nexthop_new_def split: if_splits list.splits)
    from hd pool have p: "p < IP6_MAX_NEXT_HOPS cfg" by blast
    let ?st2 = "stn\<lparr>nhs := (nhs stn)(p := (nhs stn p)
                          \<lparr>lladdr := add_mac req, flags := GR_NH_F_STATIC OR GR_NH_F_REACHABLE\<rparr>)\<rparr>"
    from ins have st1: "nhs st1 = (nhs ?st2)(p := (nhs ?st2 p)\<lparr>ref_count := ref_count (nhs ?st2 p) + 1\<rparr>)"
      and ifs: "ifaces st1 = ifaces ?st2"
      by (auto simp: ip6_route_insert_def nexthop_incref_def split: option.splits)
    have m: "nh_matches (add_vrf_id req) (add_iface_id req) (add_ipv6 req) (nhs st1 p)"
      by (simp add: st1 stn nh_matches_def nexthop_init_def)
    have others: "\<forall>q. q \<noteq> p \<longrightarrow> nhs st1 q = nhs st q"
      by (simp add: st1 stn)
    have "ip6_nexthop_lookup cfg (add_vrf_id req) (add_iface_id req) (add_ipv6 req) st1 = Some p"
      by (rule nh6_add_created_lookup [OF None p m others])
    moreover have "iface_id (nhs st1 p) = add_iface_id req" "lladdr (nhs st1 p) = add_mac req"
      by (simp_all add: st1 stn nexthop_init_def)
    moreover have "iface_from_id (add_iface_id req) st1 = iface_from_id (add_iface_id req) st"
      by (simp add: iface_from_id_def ifs stn)
    ultimately show ?thesis by blast
  qed
qed

text \<open>
  A second \<^verbatim>\<open>NH_ADD\<close> with the key of the first. After a successful
  \<^verbatim>\<open>NH_ADD\<close>, a second \<^verbatim>\<open>NH_ADD\<close> with the same vrf, interface and
  address returns \<open>OK\<close> when \<open>exist_ok\<close> is set and the mac is the same,
  and \<open>EEXIST\<close> when \<open>exist_ok\<close> is not set or the mac differs; in both
  cases the state (the pool with it) is unchanged. The free list of the pool
  holds indices of the pool.
\<close>

lemma nh6_add_again:
  assumes first: "nh6_add cfg req st = (OK, st1)"
    and pool: "\<forall>p \<in> set (free_list st). p < IP6_MAX_NEXT_HOPS cfg"
    and key: "add_vrf_id req2 = add_vrf_id req" "add_iface_id req2 = add_iface_id req"
             "add_ipv6 req2 = add_ipv6 req"
  shows "nh6_add cfg req2 st1 =
           (if exist_ok req2 \<and> add_mac req2 = add_mac req then (OK, st1) else (ERR EEXIST, st1))"
proof -
  from nh6_add_OK_pre [OF first] obtain ifp where
    pre: "\<not> (rte_ipv6_addr_is_unspec (add_ipv6 req) \<or> rte_ipv6_addr_is_mcast (add_ipv6 req))"
      "\<not> MAX_VRFS cfg \<le> unat (add_vrf_id req)" "iface_from_id (add_iface_id req) st = Inr ifp"
    by blast
  from nh6_add_OK_cases [OF first pool] obtain nh where
    l: "ip6_nexthop_lookup cfg (add_vrf_id req) (add_iface_id req) (add_ipv6 req) st1 = Some nh"
    and f: "iface_id (nhs st1 nh) = add_iface_id req" "lladdr (nhs st1 nh) = add_mac req"
    and i: "iface_from_id (add_iface_id req) st1 = iface_from_id (add_iface_id req) st"
    by blast
  have "nh6_add cfg req2 st1 =
    (case ip6_nexthop_lookup cfg (add_vrf_id req2) (add_iface_id req2) (add_ipv6 req2) st1 of
       Some nh \<Rightarrow>
         if exist_ok req2 \<and> add_iface_id req2 = iface_id (nhs st1 nh)
            \<and> add_mac req2 = lladdr (nhs st1 nh)
         then (OK, st1) else (ERR EEXIST, st1)
     | None \<Rightarrow>
         (case ip6_nexthop_new (add_vrf_id req2) (add_iface_id req2) (add_ipv6 req2) st1 of
            Inl e \<Rightarrow> (ERR e, st1)
          | Inr (nh, stn) \<Rightarrow>
              (case ip6_route_insert (add_vrf_id req2) (add_iface_id req2) (add_ipv6 req2) 128 nh
                      (stn\<lparr>nhs := (nhs stn)(nh := (nhs stn nh)
                          \<lparr>lladdr := add_mac req2, flags := GR_NH_F_STATIC OR GR_NH_F_REACHABLE\<rparr>)\<rparr>) of
                 Inl e \<Rightarrow> (ERR e, stn\<lparr>nhs := (nhs stn)(nh := (nhs stn nh)
                          \<lparr>lladdr := add_mac req2, flags := GR_NH_F_STATIC OR GR_NH_F_REACHABLE\<rparr>)\<rparr>)
               | Inr st3 \<Rightarrow> (OK, st3))))"
    by (rule nh6_add_valid [where ifp = ifp]) (simp_all add: key pre i)
  with l f show ?thesis by (simp add: key)
qed

lemma lookup_two_if_state: "ip6_nexthop_lookup cfg_ex 0 1 peer_ip two_if_state = None"
  by (simp add: ip6_nexthop_lookup_def cfg_ex_def two_if_state_def state_ex_def nh_matches_def
      nexthop_init_def upt_rec)

lemma nh6_add_ex: "nh6_add cfg_ex add_req_ex two_if_state = (OK, added_state)"
  using lookup_two_if_state peer_ip_valid
  by (simp add: nh6_add_def add_req_ex_def cfg_ex_def iface_from_id_def ip6_nexthop_new_def
      ip6_route_insert_def nexthop_incref_def route_exact_def RTE_IPV6_MAX_DEPTH_def
      nexthop_init_def two_if_state_def state_ex_def added_state_def Let_def)





lemma nh6_add_again_ex:
  "nh6_add cfg_ex add_req_ex added_state = (OK, added_state)
   \<and> nh6_add cfg_ex (add_req_ex\<lparr>exist_ok := False\<rparr>) added_state = (ERR EEXIST, added_state)
   \<and> nh6_add cfg_ex (add_req_ex\<lparr>add_mac := other_mac\<rparr>) added_state = (ERR EEXIST, added_state)"
  using nh6_add_again [OF nh6_add_ex, of add_req_ex]
    nh6_add_again [OF nh6_add_ex, of "add_req_ex\<lparr>exist_ok := False\<rparr>"]
    nh6_add_again [OF nh6_add_ex, of "add_req_ex\<lparr>add_mac := other_mac\<rparr>"]
  by (simp add: two_if_state_def state_ex_def cfg_ex_def add_req_ex_def peer_mac_def other_mac_def)

lemma lookup_link_state_undef: "ip6_nexthop_lookup cfg_ex 0 GR_IFACE_ID_UNDEF link_ip link_state = Some 0"
  by (simp add: ip6_nexthop_lookup_def cfg_ex_def link_state_def state_ex_def nh_matches_def
      nexthop_init_def upt_rec)

lemma lookup_added_state_undef: "ip6_nexthop_lookup cfg_ex 0 GR_IFACE_ID_UNDEF peer_ip added_state = Some 0"
  by (simp add: ip6_nexthop_lookup_def cfg_ex_def added_state_def two_if_state_def state_ex_def
      nh_matches_def nexthop_init_def upt_rec)

lemma lookup_unrouted_state:
  "ip6_nexthop_lookup cfg_ex 0 GR_IFACE_ID_UNDEF peer_ip unrouted_state = Some 0"
  by (simp add: ip6_nexthop_lookup_def cfg_ex_def unrouted_state_def added_state_def
      two_if_state_def state_ex_def nh_matches_def nexthop_init_def upt_rec)

lemma added_not_busy:
  "\<not> (nh_flag (flags (nhs added_state 0)) GR_NH_F_LOCAL
      \<or> nh_flag (flags (nhs added_state 0)) GR_NH_F_LINK
      \<or> nh_flag (flags (nhs added_state 0)) GR_NH_F_GATEWAY
      \<or> 1 < ref_count (nhs added_state 0))"
  by (simp add: added_state_def nh_flag_def GR_NH_F_LINK_def GR_NH_F_REACHABLE_def
      GR_NH_F_STATIC_def GR_NH_F_LOCAL_def GR_NH_F_GATEWAY_def)

theorem nh6_del_busy_witness:
  "nh6_del cfg_ex \<lparr>del_vrf_id = 0, del_host = link_ip, missing_ok = False\<rparr> link_state
      = (ERR EBUSY, link_state)
   \<and> fst (nh6_del cfg_ex del_req_ex added_state) = OK
   \<and> routes (snd (nh6_del cfg_ex del_req_ex added_state)) = []
   \<and> free_list (snd (nh6_del cfg_ex del_req_ex added_state)) = [0, 1, 2, 3]
   \<and> nh6_del cfg_ex del_req_ex unrouted_state = (ERR ENOENT, unrouted_state)"
proof -
  have a: "nh_flag (flags (nhs link_state 0)) GR_NH_F_LINK"
    by (simp add: link_state_def nh_flag_def GR_NH_F_LINK_def GR_NH_F_REACHABLE_def)
  note b = added_not_busy
  have b': "nhs unrouted_state 0 = nhs added_state 0" by (simp add: unrouted_state_def)
  have c: "find (route_exact 0 peer_ip 128) (routes added_state)
      = Some \<lparr>r_vrf = 0, r_ip = peer_ip, r_len = 128, r_nh = 0\<rparr>"
    by (simp add: added_state_def route_exact_def prefix_match_def)
  have d: "find (route_exact 0 peer_ip 128) (routes unrouted_state) = None"
    by (simp add: unrouted_state_def route_exact_def)
  from nh6_del_busy [where req = "\<lparr>del_vrf_id = 0, del_host = link_ip, missing_ok = False\<rparr>"
      and cfg = cfg_ex and st = link_state and nh = 0, OF _ _ refl] lookup_link_state_undef a
  have 1: "nh6_del cfg_ex \<lparr>del_vrf_id = 0, del_host = link_ip, missing_ok = False\<rparr> link_state
      = (ERR EBUSY, link_state)"
    by (simp add: cfg_ex_def prod_eq_iff)
  from nh6_del_busy [where req = del_req_ex and cfg = cfg_ex and st = added_state and nh = 0,
      OF _ _ refl] lookup_added_state_undef b c
  have 2: "nh6_del cfg_ex del_req_ex added_state =
      (OK, nexthop_decref 0 (added_state\<lparr>routes := []\<rparr>))"
    by (simp add: cfg_ex_def del_req_ex_def added_state_def)
  from nh6_del_busy [where req = del_req_ex and cfg = cfg_ex and st = unrouted_state and nh = 0,
      OF _ _ refl] lookup_unrouted_state b d
  have 3: "nh6_del cfg_ex del_req_ex unrouted_state = (ERR ENOENT, unrouted_state)"
    by (simp add: cfg_ex_def del_req_ex_def b')
  show ?thesis
    unfolding 1 2 3
    by (simp add: nexthop_decref_def added_state_def two_if_state_def state_ex_def)
qed

text \<open>
  Claim C8 as stated fails for a nexthop that is not busy and has no /128
  route in the table: \<^verbatim>\<open>ip6_route_delete\<close> fails and lines 248 and 249
  return its error. Here the nexthop of \<open>fe80::2\<close> (slot 0) has no flag of
  the three and one reference, held by the route of \<open>2001:db9::/64\<close>; the
  lookup finds it, the reply is \<open>ENOENT\<close> and nothing is deleted.
\<close>

theorem nh6_del_no_host_route_counterexample:
  "ip6_nexthop_lookup cfg_ex 0 GR_IFACE_ID_UNDEF peer_ip unrouted_state = Some 0
   \<and> flags (nhs unrouted_state 0) AND (GR_NH_F_LOCAL OR GR_NH_F_LINK OR GR_NH_F_GATEWAY) = 0
   \<and> ref_count (nhs unrouted_state 0) = 1
   \<and> nh6_del cfg_ex del_req_ex unrouted_state = (ERR ENOENT, unrouted_state)"
proof -
  have "nh6_del cfg_ex del_req_ex unrouted_state = (ERR ENOENT, unrouted_state)"
    using lookup_unrouted_state
    by (simp add: nh6_del_def cfg_ex_def del_req_ex_def ip6_route_delete_def route_exact_def
        unrouted_state_def added_state_def nh_flag_def GR_NH_F_LINK_def GR_NH_F_REACHABLE_def
        GR_NH_F_STATIC_def GR_NH_F_LOCAL_def GR_NH_F_GATEWAY_def RTE_IPV6_MAX_DEPTH_def
        via_ip_def peer_ip_def)
  then show ?thesis
    using lookup_unrouted_state
    by (simp add: unrouted_state_def added_state_def GR_NH_F_LINK_def GR_NH_F_REACHABLE_def
        GR_NH_F_STATIC_def GR_NH_F_LOCAL_def GR_NH_F_GATEWAY_def)
qed

subsection \<open>\<^verbatim>\<open>ndp_ns_input\<close> and \<^verbatim>\<open>ndp_ns_output\<close>\<close>

lemma solnode_is_mcast: "ip6_addr_is_solnode a \<Longrightarrow> rte_ipv6_addr_is_mcast a"
proof -
  assume "ip6_addr_is_solnode a"
  then have "drop_bit 24 a = 0xff0200000000000000000001ff" by (simp add: ip6_addr_is_solnode_def)
  then have "drop_bit 96 (drop_bit 24 a) = drop_bit 96 (0xff0200000000000000000001ff :: 128 word)"
    by simp
  then have "drop_bit 120 a = 0xff" by (simp add: drop_bit_drop_bit)
  then show ?thesis by (simp add: rte_ipv6_addr_is_mcast_def)
qed

lemma ndp_ns_input_one_inval:
  "ns_inval cfg m st \<Longrightarrow> ndp_ns_input_one cfg m st = ([(NSI_INVAL, m)], st)"
  by (auto simp: ns_inval_def ns_local_def ndp_ns_input_one_def Let_def split: option.splits)

lemma ndp_ns_input_one_edges:
  "\<not> ns_inval cfg m st \<Longrightarrow> NSI_INVAL \<notin> fst ` set (fst (ndp_ns_input_one cfg m st))"
  by (auto simp: ns_inval_def ns_local_def ndp_ns_input_one_def Let_def split: option.splits)

lemma lookup_local_state: "ip6_nexthop_lookup cfg_ex 0 1 local_ip local_state = Some 0"
  by (simp add: ip6_nexthop_lookup_def cfg_ex_def local_state_def state_ex_def nh_matches_def
      nexthop_init_def upt_rec)

lemma lookup_local_state_peer: "ip6_nexthop_lookup cfg_ex 0 1 peer_ip local_state = None"
  by (simp add: ip6_nexthop_lookup_def cfg_ex_def local_state_def state_ex_def nh_matches_def
      nexthop_init_def upt_rec local_ip_def peer_ip_def)

lemma local_state_flag: "nh_flag (flags (nhs local_state 0)) GR_NH_F_LOCAL"
  by (simp add: local_state_def nh_flag_def GR_NH_F_LOCAL_def GR_NH_F_REACHABLE_def)

lemma addr_facts:
  "\<not> rte_ipv6_addr_is_mcast local_ip" "\<not> rte_ipv6_addr_is_mcast peer_ip"
  "rte_ipv6_addr_is_mcast solnode_ip" "ip6_addr_is_solnode solnode_ip"
  "rte_ipv6_addr_is_mcast RTE_IPV6_ADDR_ALLNODES_LINK_LOCAL"
  "\<not> ip6_addr_is_solnode RTE_IPV6_ADDR_ALLNODES_LINK_LOCAL"
  "\<not> ip6_addr_is_solnode peer_ip"
  "rte_ipv6_addr_is_unspec 0"
  by (simp_all add: rte_ipv6_addr_is_mcast_def ip6_addr_is_solnode_def rte_ipv6_addr_is_unspec_def
      local_ip_def peer_ip_def solnode_ip_def RTE_IPV6_ADDR_ALLNODES_LINK_LOCAL_def)

text \<open>
  Claim C5, amended. For a solicitation whose IP destination, when it is
  multicast, is a solicited-node multicast address: \<^verbatim>\<open>ndp_ns_input\<close> sends
  it to the edge \<^verbatim>\<open>INVAL\<close>, with no reply built and nothing posted to
  control (the only enqueue is the packet on \<^verbatim>\<open>INVAL\<close>, the state is as
  before), exactly when the hop limit is not 255, or the ICMP code is not 0,
  or the target is multicast, or the target resolves to a \<open>LOCAL\<close> nexthop
  on the receiving interface and the source is unspecified and either the
  destination is not a solicited-node multicast address or a source
  link-layer address option is present. No other packet reaches \<^verbatim>\<open>INVAL\<close>.
\<close>

theorem ndp_ns_input_inval:
  assumes "rte_ipv6_addr_is_mcast (ip6_dst (mbufs st m)) \<longrightarrow> ip6_addr_is_solnode (ip6_dst (mbufs st m))"
  shows "(ndp_ns_input_one cfg m st = ([(NSI_INVAL, m)], st)
          \<longleftrightarrow> hop_limit (mbufs st m) \<noteq> 255
              \<or> icmp6_code (mbufs st m) \<noteq> 0
              \<or> rte_ipv6_addr_is_mcast (nd_target (mbufs st m))
              \<or> (ns_local cfg m st
                  \<and> rte_ipv6_addr_is_unspec (ip6_src (mbufs st m))
                  \<and> (\<not> ip6_addr_is_solnode (ip6_dst (mbufs st m))
                      \<or> icmp6_get_opt (mbufs st m) ICMP6_OPT_SRC_LLADDR \<noteq> None)))
       \<and> (NSI_INVAL \<in> fst ` set (fst (ndp_ns_input_one cfg m st))
            \<longrightarrow> ndp_ns_input_one cfg m st = ([(NSI_INVAL, m)], st))"
proof -
  have eq: "ip6_addr_is_solnode (ip6_dst (mbufs st m)) = rte_ipv6_addr_is_mcast (ip6_dst (mbufs st m))"
    using assms solnode_is_mcast by blast
  have iff: "ndp_ns_input_one cfg m st = ([(NSI_INVAL, m)], st) \<longleftrightarrow> ns_inval cfg m st"
  proof
    assume r: "ndp_ns_input_one cfg m st = ([(NSI_INVAL, m)], st)"
    show "ns_inval cfg m st"
    proof (rule ccontr)
      assume "\<not> ns_inval cfg m st"
      from ndp_ns_input_one_edges [OF this] r show False by simp
    qed
  next
    assume "ns_inval cfg m st"
    then show "ndp_ns_input_one cfg m st = ([(NSI_INVAL, m)], st)" by (rule ndp_ns_input_one_inval)
  qed
  have only: "NSI_INVAL \<in> fst ` set (fst (ndp_ns_input_one cfg m st))
            \<longrightarrow> ndp_ns_input_one cfg m st = ([(NSI_INVAL, m)], st)"
    using ndp_ns_input_one_edges [of cfg m st] iff by blast
  show ?thesis
    using iff only by (simp only: ns_inval_def eq) 
qed

theorem ndp_ns_input_inval_witness:
  "ndp_ns_input_one cfg_ex 2 local_state = ([(NSI_INVAL, 2)], local_state)"
proof (rule iffD2 [OF conjunct1 [OF ndp_ns_input_inval]])
  have f: "mbufs local_state 2 = ns_ex\<lparr>ip6_dst := peer_ip\<rparr>"
    by (simp add: local_state_def)
  have l: "ns_local cfg_ex 2 local_state"
    using lookup_local_state local_state_flag
    by (simp add: ns_local_def f ns_ex_def mbuf_ex_def iface_ex_def)
  show "rte_ipv6_addr_is_mcast (ip6_dst (mbufs local_state 2))
      \<longrightarrow> ip6_addr_is_solnode (ip6_dst (mbufs local_state 2))"
    using addr_facts by (simp add: f)
  show "hop_limit (mbufs local_state 2) \<noteq> 255
      \<or> icmp6_code (mbufs local_state 2) \<noteq> 0
      \<or> rte_ipv6_addr_is_mcast (nd_target (mbufs local_state 2))
      \<or> (ns_local cfg_ex 2 local_state
          \<and> rte_ipv6_addr_is_unspec (ip6_src (mbufs local_state 2))
          \<and> (\<not> ip6_addr_is_solnode (ip6_dst (mbufs local_state 2))
              \<or> icmp6_get_opt (mbufs local_state 2) ICMP6_OPT_SRC_LLADDR \<noteq> None))"
    using l addr_facts by (simp add: f ns_ex_def)
qed

text \<open>
  Claim C5 as stated fails: the lookup of the target comes before the tests
  on an unspecified source. A solicitation from \<open>::\<close> to a unicast
  destination, for a target that is not a local address, fails the
  validation the claim lists and goes to \<^verbatim>\<open>IGNORE\<close>, not to
  \<^verbatim>\<open>INVAL\<close>.
\<close>

theorem ndp_ns_input_ignore_counterexample:
  "ndp_ns_input_one cfg_ex 3 local_state = ([(NSI_IGNORE, 3)], local_state)
   \<and> rte_ipv6_addr_is_unspec (ip6_src (mbufs local_state 3))
   \<and> \<not> ip6_addr_is_solnode (ip6_dst (mbufs local_state 3))
   \<and> hop_limit (mbufs local_state 3) = 255
   \<and> icmp6_code (mbufs local_state 3) = 0
   \<and> \<not> rte_ipv6_addr_is_mcast (nd_target (mbufs local_state 3))"
proof -
  have f: "mbufs local_state 3 = ns_ex\<lparr>ip6_dst := peer_ip, nd_target := peer_ip\<rparr>"
    by (simp add: local_state_def)
  show ?thesis
    using lookup_local_state_peer addr_facts
    by (simp add: ndp_ns_input_one_def f ns_ex_def mbuf_ex_def iface_ex_def)
qed

text \<open>
  The test on the destination is \<^verbatim>\<open>rte_ipv6_addr_is_mcast\<close>, while the
  comment above it asks for a solicited-node multicast address: a
  solicitation from \<open>::\<close> to the all-nodes address \<open>ff02::1\<close> is answered.
\<close>

lemma ndp_ns_input_allnodes_dst:
  "fst (ndp_ns_input_one cfg_ex 4 local_state) = [(NSI_IP_OUTPUT, 4)]
   \<and> rte_ipv6_addr_is_unspec (ip6_src (mbufs local_state 4))
   \<and> \<not> ip6_addr_is_solnode (ip6_dst (mbufs local_state 4))"
proof -
  have f: "mbufs local_state 4 = ns_ex\<lparr>ip6_dst := RTE_IPV6_ADDR_ALLNODES_LINK_LOCAL\<rparr>"
    by (simp add: local_state_def)
  show ?thesis
    using lookup_local_state local_state_flag addr_facts
    by (simp add: ndp_ns_input_one_def f ns_ex_def mbuf_ex_def iface_ex_def icmp6_get_opt_def)
qed

text \<open>
  Claim C6. A solicitation that passes the validation (hop limit 255, code
  0, target not multicast, no source link-layer address option), with an
  unspecified source and a multicast destination (a solicited-node address
  is one), whose target resolves to a \<open>LOCAL\<close> nexthop on the receiving
  interface: the only enqueue is the packet on \<^verbatim>\<open>IP_OUTPUT\<close>, rewritten as
  a neighbour advertisement with \<open>Solicited = 0\<close> for the all-nodes
  link-local address; nothing goes to \<^verbatim>\<open>CONTROL\<close>, no copy is taken from
  the packet pool, and no nexthop changes.
\<close>

theorem ndp_ns_input_unspec_reply:
  assumes d: "d = mbufs st m"
    and hop: "hop_limit d = 255"
    and code: "icmp6_code d = 0"
    and target: "\<not> rte_ipv6_addr_is_mcast (nd_target d)"
    and src: "rte_ipv6_addr_is_unspec (ip6_src d)"
    and dst: "rte_ipv6_addr_is_mcast (ip6_dst d)"
    and opt: "icmp6_get_opt d ICMP6_OPT_SRC_LLADDR = None"
    and found: "ip6_nexthop_lookup cfg (if_vrf_id (md_iface d)) (if_id (md_iface d)) (nd_target d) st
                  = Some local"
    and loc: "nh_flag (flags (nhs st local)) GR_NH_F_LOCAL"
  shows "\<exists>st'. ndp_ns_input_one cfg m st = ([(NSI_IP_OUTPUT, m)], st')
      \<and> icmp6_type (mbufs st' m) = ICMP6_TYPE_NEIGH_ADVERT
      \<and> \<not> nd_solicited (mbufs st' m)
      \<and> ip6_dst (mbufs st' m) = RTE_IPV6_ADDR_ALLNODES_LINK_LOCAL
      \<and> ip6_src (mbufs st' m) = ipv6 (nhs st local)
      \<and> nd_target (mbufs st' m) = ipv6 (nhs st local)
      \<and> nd_opts (mbufs st' m) = [(ICMP6_OPT_TARGET_LLADDR, lladdr (nhs st local))]
      \<and> out_nh (mbufs st' m) = Some local
      \<and> (\<forall>p. p \<noteq> m \<longrightarrow> mbufs st' p = mbufs st p)
      \<and> mbuf_pool st' = mbuf_pool st
      \<and> nhs st' = nhs st \<and> routes st' = routes st \<and> ring st' = ring st"
  using assms
  by (simp add: ndp_ns_input_one_def Let_def ns_input_reply_def ip6_set_fields_def)

text \<open>
  Claim C7. When \<^verbatim>\<open>ndp_ns_output\<close> builds a solicit (the packet carries
  a nexthop and the interface has a preferred address): with
  \<open>last_reply \<noteq> 0\<close> and \<open>ucast_probes < NH_UCAST_PROBES\<close> the IPv6
  destination is the address of the nexthop and \<open>ucast_probes\<close> grows by
  one; otherwise the destination is the solicited-node multicast address of
  the nexthop address and \<open>bcast_probes\<close> grows by one. In both cases the
  packet leaves on the edge \<^verbatim>\<open>OUTPUT\<close> with the nexthop attached, and
  \<open>last_request\<close> is the time of the call in the state it leaves with.
\<close>

theorem ndp_ns_output_solicit:
  assumes data: "ctl_data (mbufs st m) = Some nh"
    and pref: "addr_preferred st (iface_id (nhs st nh)) (ipv6 (nhs st nh)) = Some local"
  shows "\<exists>st'. ndp_ns_output_one cfg now m st = ((NSO_OUTPUT, m), st')
      \<and> (if last_reply (nhs st nh) \<noteq> 0 \<and> ucast_probes (nhs st nh) < NH_UCAST_PROBES cfg
          then ip6_dst (mbufs st' m) = ipv6 (nhs st nh)
               \<and> ucast_probes (nhs st' nh) = ucast_probes (nhs st nh) + 1
               \<and> bcast_probes (nhs st' nh) = bcast_probes (nhs st nh)
          else ip6_dst (mbufs st' m) = rte_ipv6_solnode_from_addr (ipv6 (nhs st nh))
               \<and> bcast_probes (nhs st' nh) = bcast_probes (nhs st nh) + 1
               \<and> ucast_probes (nhs st' nh) = ucast_probes (nhs st nh))
      \<and> last_request (nhs st' nh) = now
      \<and> out_nh (mbufs st' m) = Some nh
      \<and> icmp6_type (mbufs st' m) = ICMP6_TYPE_NEIGH_SOLICIT
      \<and> nd_target (mbufs st' m) = ipv6 (nhs st nh)"
  using assms
  by (simp add: ndp_ns_output_one_def Let_def ip6_set_fields_def)

theorem ndp_ns_output_solicit_witness:
  "(\<exists>st'. ndp_ns_output_one cfg_ex 9 5 solicit_state = ((NSO_OUTPUT, 5), st')
       \<and> ip6_dst (mbufs st' 5) = 0xff0200000000000000000001ff000002
       \<and> bcast_probes (nhs st' 2) = 1 \<and> ucast_probes (nhs st' 2) = 0
       \<and> last_request (nhs st' 2) = 9)
   \<and> (\<exists>st'. ndp_ns_output_one cfg_ex 9 6 solicit_state = ((NSO_OUTPUT, 6), st')
       \<and> ip6_dst (mbufs st' 6) = host_ip
       \<and> ucast_probes (nhs st' 3) = 1 \<and> bcast_probes (nhs st' 3) = 0
       \<and> last_request (nhs st' 3) = 9)"
proof -
  have f: "ctl_data (mbufs solicit_state 5) = Some 2" "ctl_data (mbufs solicit_state 6) = Some 3"
    "iface_id (nhs solicit_state 2) = 1" "iface_id (nhs solicit_state 3) = 1"
    "addr_preferred solicit_state 1 peer_ip = Some 0" "addr_preferred solicit_state 1 host_ip = Some 0"
    "last_reply (nhs solicit_state 2) = 0" "last_reply (nhs solicit_state 3) = 5"
    "ucast_probes (nhs solicit_state 2) = 0" "ucast_probes (nhs solicit_state 3) = 0"
    "bcast_probes (nhs solicit_state 2) = 0" "bcast_probes (nhs solicit_state 3) = 0"
    "ipv6 (nhs solicit_state 2) = peer_ip" "ipv6 (nhs solicit_state 3) = host_ip"
    "NH_UCAST_PROBES cfg_ex = 3"
    by (simp_all add: solicit_state_def state_ex_def mbuf_ex_def nexthop_init_def cfg_ex_def)
  have s: "rte_ipv6_solnode_from_addr peer_ip = 0xff0200000000000000000001ff000002"
    by (simp add: rte_ipv6_solnode_from_addr_def peer_ip_def)
  from ndp_ns_output_solicit [of solicit_state 5 2 0 cfg_ex 9]
  have a: "\<exists>st'. ndp_ns_output_one cfg_ex 9 5 solicit_state = ((NSO_OUTPUT, 5), st')
       \<and> ip6_dst (mbufs st' 5) = 0xff0200000000000000000001ff000002
       \<and> bcast_probes (nhs st' 2) = 1 \<and> ucast_probes (nhs st' 2) = 0
       \<and> last_request (nhs st' 2) = 9"
    by (simp add: f s) blast
  from ndp_ns_output_solicit [of solicit_state 6 3 0 cfg_ex 9]
  have b: "\<exists>st'. ndp_ns_output_one cfg_ex 9 6 solicit_state = ((NSO_OUTPUT, 6), st')
       \<and> ip6_dst (mbufs st' 6) = host_ip
       \<and> ucast_probes (nhs st' 3) = 1 \<and> bcast_probes (nhs st' 3) = 0
       \<and> last_request (nhs st' 3) = 9"
    by (simp add: f) blast
  from a b show ?thesis by (rule conjI)
qed

theorem ndp_ns_input_unspec_reply_witness:
  "\<exists>st'. ndp_ns_input_one cfg_ex 0 local_state = ([(NSI_IP_OUTPUT, 0)], st')
      \<and> icmp6_type (mbufs st' 0) = ICMP6_TYPE_NEIGH_ADVERT
      \<and> \<not> nd_solicited (mbufs st' 0)
      \<and> ip6_dst (mbufs st' 0) = 0xff020000000000000000000000000001
      \<and> ip6_src (mbufs st' 0) = local_ip
      \<and> nhs st' = nhs local_state"
proof -
  have f: "mbufs local_state 0 = ns_ex" "nhs local_state 0 = (nexthop_init 0 1 local_ip)
         \<lparr>flags := GR_NH_F_LOCAL OR GR_NH_F_REACHABLE, lladdr := local_mac, ref_count := 1\<rparr>"
    by (simp_all add: local_state_def state_ex_def)
  show ?thesis
    using ndp_ns_input_unspec_reply [where st = local_state and m = 0 and cfg = cfg_ex
        and local = 0, OF refl] lookup_local_state local_state_flag addr_facts
    by (simp add: f ns_ex_def mbuf_ex_def iface_ex_def icmp6_get_opt_def nexthop_init_def
        RTE_IPV6_ADDR_ALLNODES_LINK_LOCAL_def) blast
qed


end
